theory Spec2Isabelle
  imports
    Main
    "HOL-Library.Word"
    "HOL-Library.Multiset"
    "HOL-Library.Sublist"
    "HOL-Library.Log_Nat"
begin

unbundle bit_operations_syntax

section \<open>Go primitives used by plarix-scan\<close>

text \<open>
  The program is Go. Its \<^verbatim>\<open>int\<close> is modelled as a 64-bit word read as a signed number
  (the size it has on the 64-bit platforms the action runs on), \<^verbatim>\<open>time.Duration\<close> and
  \<^verbatim>\<open>int64\<close> likewise. A Go \<^verbatim>\<open>string\<close> is a sequence of bytes, which is what an
  Isabelle \<open>string\<close> is. An \<^verbatim>\<open>error\<close> is modelled by its message.
\<close>

type_synonym go_int = "64 word"
type_synonym Duration = "64 word"

subsection \<open>float64\<close>

text \<open>
  \<^verbatim>\<open>float64\<close> is IEEE 754 binary64. A finite value is represented by the rational number
  it denotes; every arithmetic operation computes the exact rational result and rounds it
  once, to nearest with ties to even (53 significant bits, exponents \<open>-1022 .. 1023\<close>,
  gradual underflow, overflow to an infinity). Each operation of an expression is rounded
  separately (no fused multiply-add), as the Go compiler does on amd64.
  The two zeros of IEEE 754 are identified; Go's \<^verbatim>\<open>==\<close> does not tell them apart either.
  The only operation that does is a division by zero, which does not occur in this
  program (its one divisor is the constant 1000); \<open>fdiv\<close> takes a zero divisor as \<open>+0\<close>.
\<close>

datatype float64 = Finite rat | PosInf | NegInf | NaN

definition pow2 :: "int \<Rightarrow> rat" where
  "pow2 e = (if 0 \<le> e then 2 ^ nat e else 1 / 2 ^ nat (- e))"

text \<open>\<open>floor_log2 q\<close> is the \<open>e\<close> with \<open>2^e \<le> q < 2^(e+1)\<close>, for \<open>q > 0\<close>.\<close>

definition floor_log2 :: "rat \<Rightarrow> int" where
  "floor_log2 q = (case quotient_of q of (a, b) \<Rightarrow>
     let e0 = bitlen a - bitlen b in if pow2 e0 \<le> q then e0 else e0 - 1)"

definition round_half_even :: "rat \<Rightarrow> int" where
  "round_half_even x = (let f = \<lfloor>x\<rfloor>; d = x - of_int f in
     if d < 1 / 2 then f else if 1 / 2 < d then f + 1 else if even f then f else f + 1)"

text \<open>
  Rounding of an exact result: the unit in the last place is \<open>2^(e - 52)\<close>, where \<open>e\<close> is
  the exponent of the value, but not below \<open>-1022\<close> (subnormal numbers); a result that
  reaches \<open>2^1024\<close> after rounding is an infinity.
\<close>

definition round64 :: "rat \<Rightarrow> float64" where
  "round64 q = (if q = 0 then Finite 0 else
     let e = max (floor_log2 \<bar>q\<bar>) (- 1022);
         m = round_half_even (q / pow2 (e - 52))
     in if 1023 < e \<or> (e = 1023 \<and> 2 ^ 53 \<le> \<bar>m\<bar>)
        then (if 0 < q then PosInf else NegInf)
        else Finite (of_int m * pow2 (e - 52)))"

text \<open>A decimal literal of the source, such as \<^verbatim>\<open>0.0025\<close>, denotes the nearest float64.\<close>

definition float64_lit :: "rat \<Rightarrow> float64" where
  "float64_lit q = round64 q"

text \<open>The conversion \<^verbatim>\<open>float64(n)\<close> of an \<^verbatim>\<open>int\<close>.\<close>

definition float64_of_int :: "go_int \<Rightarrow> float64" where
  "float64_of_int n = round64 (of_int (sint n))"

definition fsign :: "float64 \<Rightarrow> int" where
  "fsign x = (case x of Finite a \<Rightarrow> (if a < 0 then - 1 else if a = 0 then 0 else 1)
                | PosInf \<Rightarrow> 1 | NegInf \<Rightarrow> - 1 | NaN \<Rightarrow> 0)"

definition inf_of_sign :: "int \<Rightarrow> float64" where
  "inf_of_sign s = (if s = 0 then NaN else if 0 < s then PosInf else NegInf)"

fun fadd :: "float64 \<Rightarrow> float64 \<Rightarrow> float64" where
  "fadd (Finite a) (Finite b) = round64 (a + b)"
| "fadd NaN y = NaN"
| "fadd x NaN = NaN"
| "fadd PosInf NegInf = NaN"
| "fadd NegInf PosInf = NaN"
| "fadd PosInf y = PosInf"
| "fadd NegInf y = NegInf"
| "fadd (Finite a) y = y"

fun fmul :: "float64 \<Rightarrow> float64 \<Rightarrow> float64" where
  "fmul (Finite a) (Finite b) = round64 (a * b)"
| "fmul NaN y = NaN"
| "fmul x NaN = NaN"
| "fmul x y = inf_of_sign (fsign x * fsign y)"

fun fdiv :: "float64 \<Rightarrow> float64 \<Rightarrow> float64" where
  "fdiv (Finite a) (Finite b) = (if b = 0 then inf_of_sign (fsign (Finite a)) else round64 (a / b))"
| "fdiv NaN y = NaN"
| "fdiv x NaN = NaN"
| "fdiv (Finite a) y = Finite 0"
| "fdiv x (Finite b) = inf_of_sign (fsign x * (if b < 0 then - 1 else 1))"
| "fdiv x y = NaN"

text \<open>Go's \<^verbatim>\<open>x <= y\<close> on float64: false as soon as one side is NaN.\<close>

fun fle :: "float64 \<Rightarrow> float64 \<Rightarrow> bool" where
  "fle (Finite a) (Finite b) = (a \<le> b)"
| "fle NaN y = False"
| "fle x NaN = False"
| "fle NegInf y = True"
| "fle x PosInf = True"
| "fle x y = False"

subsection \<open>Strings\<close>

definition dquote :: char where
  "dquote = CHR 0x22"

definition backslash :: char where
  "backslash = CHR 0x5C"

text \<open>\<^verbatim>\<open>strings.TrimPrefix\<close>, and \<^verbatim>\<open>strings.SplitN(s, sep, 2)\<close> for a one-byte separator.\<close>

definition TrimPrefix :: "string \<Rightarrow> string \<Rightarrow> string" where
  "TrimPrefix s pre = (if prefix pre s then drop (length pre) s else s)"

definition SplitN2 :: "string \<Rightarrow> char \<Rightarrow> string list" where
  "SplitN2 s sep = (if sep \<in> set s
     then [takeWhile (\<lambda>c. c \<noteq> sep) s, tl (dropWhile (\<lambda>c. c \<noteq> sep) s)]
     else [s])"

text \<open>\<^verbatim>\<open>strings.Contains\<close> is \<^const>\<open>sublist\<close>: \<open>sublist t s\<close> when \<open>s = ps @ t @ ss\<close>.\<close>

definition Contains :: "string \<Rightarrow> string \<Rightarrow> bool" where
  "Contains s substr = sublist substr s"

text \<open>
  \<^verbatim>\<open>strconv.Quote\<close>, which is what the verb \<^verbatim>\<open>%q\<close> of \<^verbatim>\<open>fmt.Sprintf\<close> prints for a string.
  A byte below \<open>0x80\<close> is one rune: the quote and the backslash get a backslash, a printable
  one (\<open>0x20 .. 0x7E\<close>) is copied, the others are escaped. A byte from \<open>0x80\<close> on starts a
  multi-byte rune, whose decoding (\<^verbatim>\<open>utf8.DecodeRuneInString\<close>) and printability
  (\<^verbatim>\<open>unicode.IsPrint\<close>) are the Go library's: the parameter \<open>multi\<close> gives, for the rest
  of the input, the text appended for its first rune and the number of bytes it takes.
\<close>

definition lowerhex :: "nat \<Rightarrow> char" where
  "lowerhex n = ''0123456789abcdef'' ! (n mod 16)"

definition appendEscapedRune :: "char \<Rightarrow> string" where
  "appendEscapedRune r =
     (if r = dquote \<or> r = backslash then [backslash, r]
      else if 0x20 \<le> (of_char r :: nat) \<and> (of_char r :: nat) < 0x7F then [r]
      else if r = CHR 0x07 then backslash # ''a''
      else if r = CHR 0x08 then backslash # ''b''
      else if r = CHR 0x0C then backslash # ''f''
      else if r = CHR 0x0A then backslash # ''n''
      else if r = CHR 0x0D then backslash # ''r''
      else if r = CHR 0x09 then backslash # ''t''
      else if r = CHR 0x0B then backslash # ''v''
      else [backslash, CHR ''x'', lowerhex (of_char r div 16), lowerhex (of_char r mod 16)])"

fun appendQuoted :: "(string \<Rightarrow> string \<times> nat) \<Rightarrow> string \<Rightarrow> string" where
  "appendQuoted multi [] = []"
| "appendQuoted multi (c # cs) =
     (if (of_char c :: nat) < 0x80 then appendEscapedRune c @ appendQuoted multi cs
      else (case multi (c # cs) of (out, width) \<Rightarrow> out @ appendQuoted multi (drop (width - 1) cs)))"

definition Quote :: "(string \<Rightarrow> string \<times> nat) \<Rightarrow> string \<Rightarrow> string" where
  "Quote multi s = [dquote] @ appendQuoted multi s @ [dquote]"

text \<open>
  What \<^verbatim>\<open>strconv.Quote\<close> does with a multi-byte rune that is valid and printable: its bytes
  are copied. Copying byte by byte gives the same text.
\<close>

definition copy_rune :: "string \<Rightarrow> string \<times> nat" where
  "copy_rune s = (take 1 s, 1)"

section \<open>Package pricing (internal/pricing/pricing.go)\<close>

record ModelPrice =
  InputPer1K :: float64
  OutputPer1K :: float64

text \<open>The field \<open>Models\<close> is a Go map: \<open>None\<close> is the nil map.\<close>

record Prices =
  AsOf :: string
  Models :: "(string \<rightharpoonup> ModelPrice) option"

record CostResult =
  CostUSD :: float64
  Known :: bool
  UnknownReason :: string

text \<open>Reading a Go map, \<^verbatim>\<open>mp, ok := m[k]\<close>; a nil map reads as an empty one.\<close>

definition map_index :: "('k \<rightharpoonup> 'v) option \<Rightarrow> 'k \<Rightarrow> 'v option" where
  "map_index m k = (case m of None \<Rightarrow> None | Some f \<Rightarrow> f k)"

text \<open>
  \<^verbatim>\<open>Load\<close>. Reading the file and decoding its JSON into a \<open>Prices\<close> are \<^verbatim>\<open>os.ReadFile\<close>
  and \<^verbatim>\<open>json.Unmarshal\<close>, taken as parameters; the decoder leaves \<open>Models\<close> nil when the
  document has no \<^verbatim>\<open>"models"\<close> member.
\<close>

definition Load ::
  "(string \<Rightarrow> string + string) \<Rightarrow> (string \<Rightarrow> string + Prices) \<Rightarrow> string \<Rightarrow> string + Prices" where
  "Load ReadFile Unmarshal path =
     (case ReadFile path of
        Inl err \<Rightarrow> Inl (''read pricing file: '' @ err)
      | Inr data \<Rightarrow>
          (case Unmarshal data of
             Inl err \<Rightarrow> Inl (''parse pricing file: '' @ err)
           | Inr p \<Rightarrow> Inr (if Models p = None then p\<lparr>Models := Some Map.empty\<rparr> else p)))"

definition ComputeCost ::
  "(string \<Rightarrow> string \<times> nat) \<Rightarrow> Prices \<Rightarrow> string \<Rightarrow> go_int \<Rightarrow> go_int \<Rightarrow> CostResult" where
  "ComputeCost multi p model inputTokens outputTokens =
     (case map_index (Models p) model of
        None \<Rightarrow> \<lparr>CostUSD = Finite 0, Known = False,
                  UnknownReason = ''model '' @ Quote multi model @ '' not in pricing table''\<rparr>
      | Some mp \<Rightarrow>
          \<lparr>CostUSD = fdiv (fadd (fmul (float64_of_int inputTokens) (InputPer1K mp))
                                 (fmul (float64_of_int outputTokens) (OutputPer1K mp)))
                           (Finite 1000),
           Known = True, UnknownReason = ''''\<rparr>)"

text \<open>
  \<^verbatim>\<open>IsStale\<close>. \<^verbatim>\<open>time.Parse\<close> (which gets the layout and the value) and \<^verbatim>\<open>time.Since\<close>
  (which reads the clock) are parameters; the comparison is the signed one of
  \<^verbatim>\<open>time.Duration\<close>.
\<close>

definition IsStale ::
  "(string \<Rightarrow> string \<Rightarrow> string + 't) \<Rightarrow> ('t \<Rightarrow> Duration) \<Rightarrow> Prices \<Rightarrow> Duration \<Rightarrow> bool" where
  "IsStale Parse Since p maxAge =
     (case Parse ''2006-01-02'' (AsOf p) of
        Inl err \<Rightarrow> True
      | Inr asOf \<Rightarrow> maxAge <s Since asOf)"

definition Hour :: Duration where
  "Hour = 3600000000000"

definition StaleWarning ::
  "(string \<Rightarrow> string \<Rightarrow> string + 't) \<Rightarrow> ('t \<Rightarrow> Duration) \<Rightarrow> Prices \<Rightarrow> string" where
  "StaleWarning Parse Since p =
     (if IsStale Parse Since p (60 * 24 * Hour)
      then ''Pricing table may be stale (as_of: '' @ AsOf p @ '')''
      else '''')"

section \<open>Package ledger (internal/ledger/ledger.go)\<close>

text \<open>
  A decoded JSON value, as \<^verbatim>\<open>encoding/json\<close> stores it in an \<^verbatim>\<open>interface{}\<close>; an object
  (\<^verbatim>\<open>map[string]interface{}\<close>) is an association list with distinct keys.
\<close>

datatype json =
    JNull
  | JBool bool
  | JNumber float64
  | JString string
  | JArray "json list"
  | JObject "(string \<times> json) list"

record Entry =
  Timestamp :: string
  Provider :: string
  Endpoint :: string
  Model :: string
  InputTokens :: go_int
  OutputTokens :: go_int
  RawUsage :: "(string \<rightharpoonup> json) option"
  CostUSD :: float64
  CostKnown :: bool
  UnknownReason :: string
  RequestID :: string
  Streaming :: bool

record ModelStats =
  Calls :: go_int
  InputTokens :: go_int
  OutputTokens :: go_int
  KnownCostUSD :: float64

record Summary =
  TotalCalls :: go_int
  KnownCostCalls :: go_int
  UnknownCostCalls :: go_int
  TotalKnownCostUSD :: float64
  TotalInputTokens :: go_int
  TotalOutputTokens :: go_int
  ModelBreakdown :: "string \<rightharpoonup> ModelStats"
  UnknownReasons :: "string \<rightharpoonup> go_int"
  Warnings :: "string list"

text \<open>The zero value of \<open>ModelStats\<close>, read from \<open>ModelBreakdown\<close> for a model not yet seen.\<close>

definition ModelStats_zero :: ModelStats where
  "ModelStats_zero = \<lparr>Calls = 0, InputTokens = 0, OutputTokens = 0, KnownCostUSD = Finite 0\<rparr>"

text \<open>
  \<^verbatim>\<open>Writer.Write\<close>: the file is the list of its lines, each the entry that
  \<^verbatim>\<open>json.Marshal\<close> serialises; \<open>now\<close> is the formatted current time and \<open>ok\<close> tells
  whether marshalling and the write succeed.
\<close>

definition Write :: "string \<Rightarrow> bool \<Rightarrow> Entry list \<Rightarrow> Entry \<Rightarrow> string + Entry list" where
  "Write now ok file e =
     (let e' = (if Timestamp e = [] then e\<lparr>Timestamp := now\<rparr> else e)
      in if ok then Inr (file @ [e']) else Inl ''write failed'')"

text \<open>The aggregator is its slice \<open>entries\<close>; the mutex is not modelled.\<close>

type_synonym Aggregator = "Entry list"

definition NewAggregator :: Aggregator where
  "NewAggregator = []"

definition Add :: "Aggregator \<Rightarrow> Entry \<Rightarrow> Aggregator" where
  "Add a e = a @ [e]"

text \<open>The body of the loop of \<^verbatim>\<open>Aggregator.Summary\<close>, for one entry.\<close>

definition Summary_step :: "Summary \<Rightarrow> Entry \<Rightarrow> Summary" where
  "Summary_step s e =
     (let s1 = s\<lparr>TotalCalls := TotalCalls s + 1,
                 TotalInputTokens := TotalInputTokens s + Entry.InputTokens e,
                 TotalOutputTokens := TotalOutputTokens s + Entry.OutputTokens e\<rparr>;
          s2 = (if CostKnown e
                then s1\<lparr>KnownCostCalls := KnownCostCalls s1 + 1,
                         TotalKnownCostUSD := fadd (TotalKnownCostUSD s1) (Entry.CostUSD e)\<rparr>
                else (let s1' = s1\<lparr>UnknownCostCalls := UnknownCostCalls s1 + 1\<rparr>
                      in if Entry.UnknownReason e \<noteq> []
                         then s1'\<lparr>UnknownReasons := (UnknownReasons s1')(Entry.UnknownReason e \<mapsto>
                                (case UnknownReasons s1' (Entry.UnknownReason e) of
                                   None \<Rightarrow> 0 | Some n \<Rightarrow> n) + 1)\<rparr>
                         else s1'));
          ms = (case ModelBreakdown s2 (Model e) of None \<Rightarrow> ModelStats_zero | Some m \<Rightarrow> m);
          ms1 = ms\<lparr>Calls := Calls ms + 1,
                   InputTokens := ModelStats.InputTokens ms + Entry.InputTokens e,
                   OutputTokens := ModelStats.OutputTokens ms + Entry.OutputTokens e\<rparr>;
          ms2 = (if CostKnown e
                 then ms1\<lparr>KnownCostUSD := fadd (KnownCostUSD ms1) (Entry.CostUSD e)\<rparr>
                 else ms1)
      in s2\<lparr>ModelBreakdown := (ModelBreakdown s2)(Model e \<mapsto> ms2)\<rparr>)"

definition Summary_init :: Summary where
  "Summary_init = \<lparr>TotalCalls = 0, KnownCostCalls = 0, UnknownCostCalls = 0,
     TotalKnownCostUSD = Finite 0, TotalInputTokens = 0, TotalOutputTokens = 0,
     ModelBreakdown = Map.empty, UnknownReasons = Map.empty, Warnings = []\<rparr>"

fun Summary_loop :: "Summary \<Rightarrow> Entry list \<Rightarrow> Summary" where
  "Summary_loop s [] = s"
| "Summary_loop s (e # es) = Summary_loop (Summary_step s e) es"

definition Summary :: "Aggregator \<Rightarrow> Summary" where
  "Summary a = Summary_loop Summary_init a"

text \<open>The aggregator after \<^verbatim>\<open>Add\<close> has been called with each entry of a list, in order.\<close>

fun Add_all :: "Aggregator \<Rightarrow> Entry list \<Rightarrow> Aggregator" where
  "Add_all a [] = a"
| "Add_all a (e # es) = Add_all (Add a e) es"

section \<open>The entry callback of runCmd (cmd/plarix-scan/main.go)\<close>

text \<open>
  The closure that \<^verbatim>\<open>runCmd\<close> installs as \<^verbatim>\<open>OnEntry\<close>. Its first statement is the
  pricing stage; the entry it leaves is the one that is added to the aggregator and
  written to the ledger.
\<close>

definition OnEntry_price :: "(string \<Rightarrow> string \<times> nat) \<Rightarrow> Prices \<Rightarrow> Entry \<Rightarrow> Entry" where
  "OnEntry_price multi prices e =
     (if CostKnown e \<and> Model e \<noteq> []
      then (let result = ComputeCost multi prices (Model e) (Entry.InputTokens e) (Entry.OutputTokens e)
            in if Known result
               then e\<lparr>CostUSD := CostResult.CostUSD result\<rparr>
               else e\<lparr>CostKnown := False, UnknownReason := CostResult.UnknownReason result\<rparr>)
      else e)"

record RunState =
  agg :: Aggregator
  ledger :: "Entry list"
  stderr :: "string list"

definition runCmd_OnEntry ::
  "(string \<Rightarrow> string \<times> nat) \<Rightarrow> Prices \<Rightarrow> string \<Rightarrow> bool \<Rightarrow> Entry \<Rightarrow> RunState \<Rightarrow> RunState" where
  "runCmd_OnEntry multi prices now ok e st =
     (let e' = OnEntry_price multi prices e;
          st' = st\<lparr>agg := Add (agg st) e'\<rparr>
      in case Write now ok (ledger st') e' of
           Inr file \<Rightarrow> st'\<lparr>ledger := file\<rparr>
         | Inl err \<Rightarrow> st'\<lparr>stderr := stderr st' @ [''Warning: failed to write ledger entry: '' @ err]\<rparr>)"

text \<open>The state after the callback has been called with each entry of a list, in order.\<close>

fun deliver :: "(Entry \<Rightarrow> 's \<Rightarrow> 's) \<Rightarrow> Entry list \<Rightarrow> 's \<Rightarrow> 's" where
  "deliver f [] st = st"
| "deliver f (e # es) st = deliver f es (f e st)"

section \<open>Package proxy (internal/proxy/proxy.go)\<close>

subsection \<open>Requests, responses and bodies\<close>

text \<open>
  An \<^verbatim>\<open>io.ReadCloser\<close> that comes from the network: the chunks that successive reads
  return, and how the reading ends, at the end of the data (\<open>None\<close>) or with an error.
\<close>

datatype Reader = Reader "string list" "string option"

definition ReadAll :: "Reader \<Rightarrow> string + string" where
  "ReadAll rd = (case rd of Reader chunks None \<Rightarrow> Inr (concat chunks)
                          | Reader chunks (Some err) \<Rightarrow> Inl err)"

text \<open>\<^verbatim>\<open>io.NopCloser\<close> of a reader over bytes in memory.\<close>

definition NopCloser :: "string \<Rightarrow> Reader" where
  "NopCloser b = Reader [b] None"

text \<open>A reader that \<^verbatim>\<open>io.ReadAll\<close> has read up to an error.\<close>

definition drained :: "string \<Rightarrow> Reader" where
  "drained err = Reader [] (Some err)"

text \<open>The fields of \<^verbatim>\<open>http.Request\<close> that the proxy reads or writes; \<open>Body = None\<close> is nil.\<close>

record Request =
  Path :: string
  Body :: "Reader option"
  ContentLength :: int

record URL =
  Scheme :: string
  Host :: string

text \<open>The request that the \<^verbatim>\<open>Director\<close> of the reverse proxy sends upstream.\<close>

record OutRequest =
  out_url :: URL
  out_path :: string
  out_req :: Request

text \<open>
  The fields of \<^verbatim>\<open>http.Response\<close>; \<open>ContentType\<close> is \<^verbatim>\<open>Header.Get("Content-Type")\<close>.
  The type of the body is a parameter: a \<open>Reader\<close> as it comes from upstream, a
  \<open>RespBody\<close> once \<^verbatim>\<open>handleResponse\<close> has seen it.
\<close>

record 'b Response =
  StatusCode :: int
  ContentType :: string
  RespBody :: 'b
  RespContentLength :: int

record Config =
  Providers :: "string list"
  OnEntry :: bool
  StreamUsageInjection :: bool

text \<open>
  In \<open>Config\<close>, \<open>OnEntry\<close> tells whether the callback is set (not nil); the functions
  below return the list of entries with which the callback is called, in order.
\<close>

definition providerTargets :: "string \<rightharpoonup> URL" where
  "providerTargets =
     [''openai'' \<mapsto> \<lparr>Scheme = ''https'', Host = ''api.openai.com''\<rparr>,
      ''anthropic'' \<mapsto> \<lparr>Scheme = ''https'', Host = ''api.anthropic.com''\<rparr>,
      ''openrouter'' \<mapsto> \<lparr>Scheme = ''https'', Host = ''openrouter.ai''\<rparr>]"

text \<open>
  What the proxy uses and this repository does not define, or defines in files that are
  not among the sources: the environment (\<open>Getenv name\<close> is
  \<^verbatim>\<open>strings.TrimSpace(os.Getenv(name))\<close>), \<^verbatim>\<open>url.Parse\<close>, \<^verbatim>\<open>json.Unmarshal\<close> into and
  \<^verbatim>\<open>json.Marshal\<close> of a \<^verbatim>\<open>map[string]interface{}\<close> (\<open>None\<close> is the nil map), the
  response parsers of the packages \<^verbatim>\<open>providers/openai\<close>, \<^verbatim>\<open>providers/anthropic\<close> and
  \<^verbatim>\<open>providers/openrouter\<close> (\<open>ParseResponse provider body entry\<close> is the entry that
  the parser of that package leaves), the recognition of usage in one payload of a
  stream, the round trip to the upstream server, and the index of the chunk of a
  response body at which the client goes away, if it does.
\<close>

record World =
  Getenv :: "string \<Rightarrow> string"
  url_Parse :: "string \<Rightarrow> string + URL"
  json_Unmarshal :: "string \<Rightarrow> string + (string \<rightharpoonup> json) option"
  json_Marshal :: "(string \<rightharpoonup> json) option \<Rightarrow> string + string"
  ParseResponse :: "string \<Rightarrow> string \<Rightarrow> Entry \<Rightarrow> Entry"
  ParseChunk :: "string \<Rightarrow> string \<Rightarrow> (go_int \<times> go_int \<times> (string \<rightharpoonup> json) option) option \<times> string"
  RoundTrip :: "OutRequest \<Rightarrow> string + Reader Response"
  client_gone :: "nat option"

subsection \<open>injectStreamOptions\<close>

text \<open>
  The statement of \<^verbatim>\<open>injectStreamOptions\<close> that changes the decoded payload. The type
  assertion \<^verbatim>\<open>payload["stream"].(bool)\<close> holds for a JSON boolean only, and a member
  \<^verbatim>\<open>"stream_options"\<close> exists also when its value is \<^verbatim>\<open>null\<close>.
\<close>

definition add_stream_options :: "(string \<rightharpoonup> json) option \<Rightarrow> (string \<rightharpoonup> json) option" where
  "add_stream_options payload =
     (case payload of
        None \<Rightarrow> payload
      | Some m \<Rightarrow>
          if m ''stream'' = Some (JBool True) \<and> m ''stream_options'' = None
          then Some (m(''stream_options'' \<mapsto> JObject [(''include_usage'', JBool True)]))
          else payload)"

definition injectStreamOptions :: "World \<Rightarrow> Request \<Rightarrow> Request" where
  "injectStreamOptions w r =
     (case Body r of
        None \<Rightarrow> r
      | Some rd \<Rightarrow>
          if ContentLength r = 0 then r
          else (case ReadAll rd of
                  Inl err \<Rightarrow> r\<lparr>Body := Some (drained err)\<rparr>
                | Inr body \<Rightarrow>
                    (case json_Unmarshal w body of
                       Inl err \<Rightarrow> r\<lparr>Body := Some (NopCloser body), ContentLength := int (length body)\<rparr>
                     | Inr payload \<Rightarrow>
                         (case json_Marshal w (add_stream_options payload) of
                            Inl err \<Rightarrow> r\<lparr>Body := Some (NopCloser body),
                                          ContentLength := int (length body)\<rparr>
                          | Inr modified \<Rightarrow> r\<lparr>Body := Some (NopCloser modified),
                                               ContentLength := int (length modified)\<rparr>))))"

text \<open>The bytes that a request carries upstream, if its body can be read to the end.\<close>

definition forwarded_body :: "Request \<Rightarrow> string + string" where
  "forwarded_body r = (case Body r of None \<Rightarrow> Inr [] | Some rd \<Rightarrow> ReadAll rd)"

subsection \<open>The streaming interceptor\<close>

text \<open>
  Modelled from the spec: \<^verbatim>\<open>newStreamInterceptor\<close> and the reader it returns, which
  \<^verbatim>\<open>handleResponse\<close> installs as the body of an event-stream response; its source file is
  not among the sources. The definitions follow section 4.3 of the specification: the
  bytes read from upstream are handed on as they are; the accumulated bytes are split into
  complete events at a blank line; each \<^verbatim>\<open>data:\<close> payload of an event is examined,
  the first usage and the first model name seen are kept; the stream is finalized at the
  end of the upstream data or at the payload \<^verbatim>\<open>[DONE]\<close>, and by an upstream read error
  or by the close of a stream that has not ended (the client has gone away), with the
  reasons the specification gives. Finalizing emits the record, once.
\<close>

record StreamInterceptor =
  si_provider :: string
  si_endpoint :: string
  si_buffer :: string
  si_model :: string
  si_usage :: "(go_int \<times> go_int \<times> (string \<rightharpoonup> json) option) option"
  si_finalized :: bool

definition newStreamInterceptor :: "string \<Rightarrow> string \<Rightarrow> StreamInterceptor" where
  "newStreamInterceptor provider endpoint =
     \<lparr>si_provider = provider, si_endpoint = endpoint, si_buffer = [], si_model = [],
      si_usage = None, si_finalized = False\<rparr>"

text \<open>
  Modelled from the spec: the record of a stream. It is cost-known when usage was captured
  and the stream ended normally (\<open>abort = []\<close>); otherwise the reason is that of the
  abort, or that no usage was seen.
\<close>

definition stream_entry :: "StreamInterceptor \<Rightarrow> string \<Rightarrow> Entry" where
  "stream_entry si abort =
     \<lparr>Timestamp = [], Provider = si_provider si, Endpoint = si_endpoint si, Model = si_model si,
      InputTokens = (case si_usage si of None \<Rightarrow> 0 | Some (i, out, raw) \<Rightarrow> i),
      OutputTokens = (case si_usage si of None \<Rightarrow> 0 | Some (i, out, raw) \<Rightarrow> out),
      RawUsage = (case si_usage si of None \<Rightarrow> None | Some (i, out, raw) \<Rightarrow> raw),
      CostUSD = Finite 0,
      CostKnown = (abort = [] \<and> si_usage si \<noteq> None),
      UnknownReason = (if abort \<noteq> [] then abort
                       else if si_usage si = None then ''streaming usage not available'' else []),
      RequestID = [], Streaming = True\<rparr>"

text \<open>Modelled from the spec: finalizing emits the record unless it was emitted before.\<close>

definition finalize :: "StreamInterceptor \<Rightarrow> string \<Rightarrow> StreamInterceptor \<times> Entry list" where
  "finalize si abort =
     (if si_finalized si then (si, [])
      else (si\<lparr>si_finalized := True\<rparr>, [stream_entry si abort]))"

text \<open>
  Modelled from the spec: the complete events of the accumulated bytes, each ended by a
  blank line, and the bytes after the last complete event.
\<close>

fun split_events :: "string \<Rightarrow> string \<Rightarrow> string list \<times> string" where
  "split_events cur [] = ([], cur)"
| "split_events cur [c] = ([], cur @ [c])"
| "split_events cur (c # d # cs) =
     (if c = CHR 0x0A \<and> d = CHR 0x0A
      then (case split_events [] cs of (evs, rest) \<Rightarrow> (cur # evs, rest))
      else split_events (cur @ [c]) (d # cs))"

text \<open>Modelled from the spec: the lines of one event.\<close>

fun split_lines :: "string \<Rightarrow> string \<Rightarrow> string list" where
  "split_lines cur [] = [cur]"
| "split_lines cur (c # cs) =
     (if c = CHR 0x0A then cur # split_lines [] cs else split_lines (cur @ [c]) cs)"

text \<open>Modelled from the spec: the \<^verbatim>\<open>data:\<close> payloads of one event.\<close>

definition event_payloads :: "string \<Rightarrow> string list" where
  "event_payloads ev =
     map (\<lambda>l. dropWhile (\<lambda>c. c = CHR '' '') (drop 5 l))
         (filter (prefix ''data:'') (split_lines [] ev))"

text \<open>
  Modelled from the spec: one payload. The terminator finalizes the stream; any other
  payload is given to the provider's recognition, and the first usage and the first model
  name are kept.
\<close>

definition observe ::
  "World \<Rightarrow> StreamInterceptor \<Rightarrow> string \<Rightarrow> StreamInterceptor \<times> Entry list" where
  "observe w si payload =
     (if si_finalized si then (si, [])
      else if payload = ''[DONE]'' then finalize si []
      else (case ParseChunk w (si_provider si) payload of
              (usage, model) \<Rightarrow>
                (si\<lparr>si_usage := (case si_usage si of None \<Rightarrow> usage | Some u \<Rightarrow> Some u),
                    si_model := (if si_model si = [] then model else si_model si)\<rparr>, [])))"

text \<open>Modelled from the spec: the payloads of a chunk, one after the other.\<close>

fun observe_all ::
  "World \<Rightarrow> StreamInterceptor \<Rightarrow> string list \<Rightarrow> StreamInterceptor \<times> Entry list" where
  "observe_all w si [] = (si, [])"
| "observe_all w si (p # ps) =
     (case observe w si p of (si', es) \<Rightarrow>
        (case observe_all w si' ps of (si'', es') \<Rightarrow> (si'', es @ es')))"

text \<open>What one read of the upstream body returns.\<close>

datatype ReadResult = Data string | EOF | ReadError string

text \<open>
  Modelled from the spec: the method \<^verbatim>\<open>Read\<close> of the interceptor, given what the read of
  the upstream body returns. It returns the entries emitted.
\<close>

definition interceptor_Read ::
  "World \<Rightarrow> StreamInterceptor \<Rightarrow> ReadResult \<Rightarrow> StreamInterceptor \<times> Entry list" where
  "interceptor_Read w si res =
     (case res of
        Data chunk \<Rightarrow>
          (case split_events [] (si_buffer si @ chunk) of
             (evs, rest) \<Rightarrow> observe_all w (si\<lparr>si_buffer := rest\<rparr>) (concat (map event_payloads evs)))
      | EOF \<Rightarrow> finalize si []
      | ReadError err \<Rightarrow> finalize si ''stream read error'')"

text \<open>
  Modelled from the spec: the method \<^verbatim>\<open>Close\<close> of the interceptor. Closing a stream
  that has not been finalized is the disconnect of the client.
\<close>

definition interceptor_Close :: "StreamInterceptor \<Rightarrow> StreamInterceptor \<times> Entry list" where
  "interceptor_Close si = finalize si ''client disconnected''"

text \<open>Modelled from the spec: a sequence of reads.\<close>

fun interceptor_Reads ::
  "World \<Rightarrow> StreamInterceptor \<Rightarrow> ReadResult list \<Rightarrow> StreamInterceptor \<times> Entry list" where
  "interceptor_Reads w si [] = (si, [])"
| "interceptor_Reads w si (r # rs) =
     (case interceptor_Read w si r of (si', es) \<Rightarrow>
        (case interceptor_Reads w si' rs of (si'', es') \<Rightarrow> (si'', es @ es')))"

text \<open>
  Modelled from the spec: the life of a streamed body in the reverse proxy. The body is
  read until it ends or the client is gone, and then closed; the entries are those emitted
  on the way.
\<close>

definition stream_body :: "World \<Rightarrow> StreamInterceptor \<Rightarrow> ReadResult list \<Rightarrow> Entry list" where
  "stream_body w si reads =
     (case interceptor_Reads w si reads of (si', es) \<Rightarrow> es @ snd (interceptor_Close si'))"

text \<open>
  The reads that the copy of a body to the client makes: all the chunks and the end, or
  only the chunks up to the one at which the client has gone away.
\<close>

definition body_reads :: "Reader \<Rightarrow> nat option \<Rightarrow> ReadResult list" where
  "body_reads rd gone =
     (case rd of Reader chunks ending \<Rightarrow>
        (case gone of
           Some k \<Rightarrow> (if k < length chunks then map Data (take (Suc k) chunks)
                       else map Data chunks @ [case ending of None \<Rightarrow> EOF | Some err \<Rightarrow> ReadError err])
         | None \<Rightarrow> map Data chunks @ [case ending of None \<Rightarrow> EOF | Some err \<Rightarrow> ReadError err]))"

subsection \<open>handleResponse and parseUsage\<close>

text \<open>
  The body of a response after \<^verbatim>\<open>handleResponse\<close>: a plain reader (the one from
  upstream, or one over the bytes read), or the streaming interceptor around the reader
  from upstream.
\<close>

datatype HandledBody = Passed Reader | Intercepted StreamInterceptor Reader

definition with_body :: "'a Response \<Rightarrow> 'b \<Rightarrow> 'b Response" where
  "with_body resp b = \<lparr>StatusCode = StatusCode resp, ContentType = ContentType resp,
     RespBody = b, RespContentLength = RespContentLength resp\<rparr>"

definition parseUsage :: "World \<Rightarrow> string \<Rightarrow> string \<Rightarrow> string \<Rightarrow> Entry" where
  "parseUsage w provider endpoint body =
     (let entry = \<lparr>Timestamp = [], Provider = provider, Endpoint = endpoint, Model = [],
                    InputTokens = 0, OutputTokens = 0, RawUsage = None, CostUSD = Finite 0,
                    CostKnown = False, UnknownReason = [], RequestID = [], Streaming = False\<rparr>
      in if provider = ''openai'' then ParseResponse w ''openai'' body entry
         else if provider = ''anthropic'' then ParseResponse w ''anthropic'' body entry
         else if provider = ''openrouter'' then ParseResponse w ''openrouter'' body entry
         else entry\<lparr>CostKnown := False, UnknownReason := ''unsupported provider''\<rparr>)"

text \<open>
  \<^verbatim>\<open>handleResponse\<close> returns the response as it leaves it and the entries with which
  \<^verbatim>\<open>OnEntry\<close> was called.
\<close>

definition handleResponse ::
  "World \<Rightarrow> Config \<Rightarrow> string \<Rightarrow> string \<Rightarrow> Reader Response \<Rightarrow> HandledBody Response \<times> Entry list" where
  "handleResponse w cfg provider endpoint resp =
     (if StatusCode resp < 200 \<or> 300 \<le> StatusCode resp
      then (with_body resp (Passed (RespBody resp)), [])
      else if Contains (ContentType resp) ''text/event-stream''
      then (with_body resp (Intercepted (newStreamInterceptor provider endpoint) (RespBody resp)), [])
      else if \<not> Contains (ContentType resp) ''application/json''
      then (with_body resp (Passed (RespBody resp)), [])
      else (case ReadAll (RespBody resp) of
              Inl err \<Rightarrow> (with_body resp (Passed (drained err)), [])
            | Inr body \<Rightarrow>
                ((with_body resp (Passed (NopCloser body)))\<lparr>RespContentLength := int (length body)\<rparr>,
                 if OnEntry cfg then [parseUsage w provider endpoint body] else [])))"

subsection \<open>ServeHTTP\<close>

text \<open>
  What serving one request comes to: the status sent to the client, the bytes of the body
  handed to it, the request sent upstream if one was sent, and the entries with which
  \<^verbatim>\<open>OnEntry\<close> was called.
\<close>

record Served =
  status :: int
  relayed :: string
  upstream_request :: "OutRequest option"
  entries :: "Entry list"

text \<open>\<^verbatim>\<open>http.Error\<close> writes the message and a newline.\<close>

definition http_Error :: "string \<Rightarrow> int \<Rightarrow> Served" where
  "http_Error msg code =
     \<lparr>status = code, relayed = msg @ [CHR 0x0A], upstream_request = None, entries = []\<rparr>"

text \<open>\<^verbatim>\<open>strings.ToUpper\<close>, on the ASCII letters.\<close>

definition ToUpper :: "string \<Rightarrow> string" where
  "ToUpper s = map (\<lambda>c. if 97 \<le> (of_char c :: nat) \<and> (of_char c :: nat) \<le> 122
                         then char_of (of_char c - 32 :: nat) else c) s"

definition data_bytes :: "ReadResult list \<Rightarrow> string" where
  "data_bytes reads = concat (map (\<lambda>r. case r of Data chunk \<Rightarrow> chunk | _ \<Rightarrow> []) reads)"

text \<open>
  \<^verbatim>\<open>proxy.ServeHTTP\<close> of the \<^verbatim>\<open>httputil.ReverseProxy\<close> that \<^verbatim>\<open>ServeHTTP\<close> builds: the
  director rewrites the request, a failed round trip goes to the error handler, and a
  response goes through \<^verbatim>\<open>handleResponse\<close> before its body is copied to the client and
  closed. The callback given to the interceptor calls \<^verbatim>\<open>OnEntry\<close> if it is set.
\<close>

definition proxy_ServeHTTP ::
  "World \<Rightarrow> Config \<Rightarrow> string \<Rightarrow> URL \<Rightarrow> string \<Rightarrow> Request \<Rightarrow> Served" where
  "proxy_ServeHTTP w cfg provider targetURL targetPath r =
     (let out = \<lparr>out_url = targetURL, out_path = targetPath, out_req = r\<rparr>
      in case RoundTrip w out of
           Inl err \<Rightarrow> \<lparr>status = 502, relayed = ''proxy error: '' @ err @ [CHR 0x0A],
                        upstream_request = Some out, entries = []\<rparr>
         | Inr resp \<Rightarrow>
             (case handleResponse w cfg provider targetPath resp of
                (resp', es) \<Rightarrow>
                  (case RespBody resp' of
                     Passed rd \<Rightarrow>
                       \<lparr>status = StatusCode resp',
                        relayed = data_bytes (body_reads rd (client_gone w)),
                        upstream_request = Some out, entries = es\<rparr>
                   | Intercepted si rd \<Rightarrow>
                       \<lparr>status = StatusCode resp',
                        relayed = data_bytes (body_reads rd (client_gone w)),
                        upstream_request = Some out,
                        entries = es @ (if OnEntry cfg
                                        then stream_body w si (body_reads rd (client_gone w))
                                        else [])\<rparr>)))"

definition ServeHTTP :: "World \<Rightarrow> Config \<Rightarrow> Request \<Rightarrow> Served" where
  "ServeHTTP w cfg r =
     (let pathParts = SplitN2 (TrimPrefix (Path r) ''/'') (CHR ''/'')
      in if length pathParts < 1 then http_Error ''invalid path'' 400
         else (let provider = pathParts ! 0
               in case providerTargets provider of
                    None \<Rightarrow> http_Error (''unknown provider: '' @ provider) 400
                  | Some targetBase \<Rightarrow>
                      (let targetPath = (if 1 < length pathParts then ''/'' @ pathParts ! 1 else ''/'');
                           override = Getenv w (''PLARIX_UPSTREAM_'' @ ToUpper provider);
                           targetURL = (if override \<noteq> []
                                        then (case url_Parse w override of
                                                Inr parsed \<Rightarrow> parsed | Inl err \<Rightarrow> targetBase)
                                        else targetBase);
                           r' = (if StreamUsageInjection cfg \<and> provider = ''openai''
                                 then injectStreamOptions w r else r)
                       in proxy_ServeHTTP w cfg provider targetURL targetPath r')))"

subsection \<open>The provider parsers\<close>

text \<open>
  Modelled from the spec: \<^verbatim>\<open>ParseResponse\<close> of the packages \<^verbatim>\<open>providers/openai\<close>,
  \<^verbatim>\<open>providers/anthropic\<close> and \<^verbatim>\<open>providers/openrouter\<close>, which \<open>parseUsage\<close> calls and
  whose source files are not among the sources. The definition follows sections 4.3 and
  4.4 of the specification: the provider's schema finds the token counts and the model
  name in a payload, a full response as well as one chunk (the recognition \<open>ParseChunk\<close>
  of the world); the record is cost-known if and only if usage was found, and without
  usage its reason is \<^verbatim>\<open>usage missing\<close>.
\<close>

definition ParseResponse_spec :: "World \<Rightarrow> string \<Rightarrow> string \<Rightarrow> Entry \<Rightarrow> Entry" where
  "ParseResponse_spec w provider body entry =
     (case ParseChunk w provider body of
        (None, model) \<Rightarrow>
          entry\<lparr>Model := model, CostKnown := False, UnknownReason := ''usage missing''\<rparr>
      | (Some (i, out, raw), model) \<Rightarrow>
          entry\<lparr>Model := model, Entry.InputTokens := i, Entry.OutputTokens := out,
                RawUsage := raw, CostKnown := True\<rparr>)"

text \<open>Modelled from the spec: a world whose response parsers are the ones above.\<close>

definition spec_parsers :: "World \<Rightarrow> World" where
  "spec_parsers w = w\<lparr>ParseResponse := ParseResponse_spec w\<rparr>"

section \<open>Predicates of the claims\<close>

text \<open>
  A model name that \<^verbatim>\<open>%q\<close> prints as it is: printable ASCII without the double quote
  and the backslash.
\<close>

definition plain_name :: "string \<Rightarrow> bool" where
  "plain_name s = list_all (\<lambda>c. 0x20 \<le> (of_char c :: nat) \<and> (of_char c :: nat) < 0x7F
                               \<and> c \<noteq> dquote \<and> c \<noteq> backslash) s"

text \<open>A rate that is a finite number and not negative.\<close>

definition nonneg_rate :: "float64 \<Rightarrow> bool" where
  "nonneg_rate x = (case x of Finite a \<Rightarrow> 0 \<le> a | _ \<Rightarrow> False)"

text \<open>
  The invariant that the specification states for a record: a known cost has no reason
  and is not negative; an unknown cost has a reason.
\<close>

definition finalized_ok :: "Entry \<Rightarrow> bool" where
  "finalized_ok e =
     ((CostKnown e \<longrightarrow> Entry.UnknownReason e = [] \<and> fle (Finite 0) (Entry.CostUSD e))
      \<and> (\<not> CostKnown e \<longrightarrow> Entry.UnknownReason e \<noteq> []))"

text \<open>The token counts of a usage, if there is one, are not negative.\<close>

definition nonneg_usage :: "(go_int \<times> go_int \<times> (string \<rightharpoonup> json) option) option \<Rightarrow> bool" where
  "nonneg_usage u = (case u of None \<Rightarrow> True | Some (i, out, raw) \<Rightarrow> 0 \<le>s i \<and> 0 \<le>s out)"

text \<open>
  A record as it is handed to the pricing stage: it satisfies the invariant and its token
  counts are not negative.
\<close>

definition priceable :: "Entry \<Rightarrow> bool" where
  "priceable e = (finalized_ok e \<and> 0 \<le>s Entry.InputTokens e \<and> 0 \<le>s Entry.OutputTokens e)"

text \<open>
  One step of the interceptor keeps the token counts of the captured usage non-negative
  and emits only records that can be handed to the pricing stage.
\<close>

definition step_ok :: "StreamInterceptor \<times> Entry list \<Rightarrow> bool" where
  "step_ok res = (nonneg_usage (si_usage (fst res)) \<and> list_all priceable (snd res))"

text \<open>
  One step of the interceptor keeps a finalized stream finalized, and emits one entry when
  it finalizes the stream and none otherwise.
\<close>

definition emits_once :: "StreamInterceptor \<Rightarrow> StreamInterceptor \<times> Entry list \<Rightarrow> bool" where
  "emits_once si res =
     ((si_finalized si \<longrightarrow> si_finalized (fst res))
      \<and> length (snd res) = (if si_finalized (fst res) \<and> \<not> si_finalized si then 1 else 0))"

section \<open>Test fixtures\<close>

text \<open>The pricing table of \<^verbatim>\<open>TestComputeCost\<close> (internal/pricing/pricing_test.go).\<close>

definition test_prices :: Prices where
  "test_prices = \<lparr>AsOf = ''2026-01-01'',
     Models = Some [''gpt-4o'' \<mapsto>
       \<lparr>InputPer1K = float64_lit (25 / 10000), OutputPer1K = float64_lit (1 / 100)\<rparr>]\<rparr>"

text \<open>Entries in the style of \<^verbatim>\<open>TestAggregator\<close> (internal/ledger/ledger_test.go).\<close>

definition known_entry :: "float64 \<Rightarrow> Entry" where
  "known_entry c = \<lparr>Timestamp = [], Provider = ''openai'', Endpoint = ''/v1/chat/completions'',
     Model = ''gpt-4o'', InputTokens = 100, OutputTokens = 50, RawUsage = None, CostUSD = c,
     CostKnown = True, UnknownReason = [], RequestID = [], Streaming = False\<rparr>"

definition unknown_entry :: "string \<Rightarrow> Entry" where
  "unknown_entry reason = \<lparr>Timestamp = [], Provider = ''openai'',
     Endpoint = ''/v1/chat/completions'', Model = ''gpt-4o'', InputTokens = 200,
     OutputTokens = 100, RawUsage = None, CostUSD = Finite 0, CostKnown = False,
     UnknownReason = reason, RequestID = [], Streaming = False\<rparr>"

text \<open>A pricing table in which the input rate of \<^verbatim>\<open>gpt-4o\<close> is negative.\<close>

definition negative_prices :: Prices where
  "negative_prices = \<lparr>AsOf = ''2026-01-01'',
     Models = Some [''gpt-4o'' \<mapsto>
       \<lparr>InputPer1K = float64_lit (- 1 / 100), OutputPer1K = float64_lit (1 / 100)\<rparr>]\<rparr>"

text \<open>
  A pricing file that holds the JSON document \<^verbatim>\<open>{}\<close>, which has no \<^verbatim>\<open>"models"\<close>
  member, and what \<^verbatim>\<open>json.Unmarshal\<close> makes of it: the zero \<open>Prices\<close>.
\<close>

definition fixture_ReadFile :: "string \<Rightarrow> string + string" where
  "fixture_ReadFile path =
     (if path = ''prices.json'' then Inr ''{}'' else Inl ''no such file or directory'')"

definition fixture_Unmarshal :: "string \<Rightarrow> string + Prices" where
  "fixture_Unmarshal data =
     (if data = ''{}'' then Inr \<lparr>AsOf = [], Models = None\<rparr>
      else Inl ''invalid character'')"

text \<open>
  A clock and a date parser for the cases of \<^verbatim>\<open>TestIsStale\<close>: a time is a number of days
  since 1970-01-01, the current day is 2026-01-01 (day 20454), and the parser knows the
  date 2020-01-01 (day 18262) and rejects every other text.
\<close>

definition fixture_Parse :: "string \<Rightarrow> string \<Rightarrow> string + int" where
  "fixture_Parse layout v =
     (if layout = ''2006-01-02'' \<and> v = ''2020-01-01'' then Inr 18262
      else Inl ''cannot parse'')"

definition fixture_Since :: "int \<Rightarrow> Duration" where
  "fixture_Since t = word_of_int ((20454 - t) * 24) * Hour"

text \<open>
  A world for the proxy: no override in the environment, a JSON codec that knows one
  request body, \<^verbatim>\<open>{"stream":true}\<close>, and the same body with the usage option added,
  response parsers that find usage for the model \<^verbatim>\<open>gpt-4o\<close>, an upstream that answers
  200 with a JSON body, and a client that stays.
\<close>

definition quoted :: "string \<Rightarrow> string" where
  "quoted s = dquote # s @ [dquote]"

definition stream_request :: string where
  "stream_request = ''{'' @ quoted ''stream'' @ '':true}''"

definition stream_request_with_options :: string where
  "stream_request_with_options =
     ''{'' @ quoted ''stream'' @ '':true,'' @ quoted ''stream_options'' @ '':{''
       @ quoted ''include_usage'' @ '':true}}''"

definition fixture_decode :: "string \<Rightarrow> string + (string \<rightharpoonup> json) option" where
  "fixture_decode body =
     (if body = stream_request then Inr (Some [''stream'' \<mapsto> JBool True])
      else Inl ''invalid character'')"

definition fixture_encode :: "(string \<rightharpoonup> json) option \<Rightarrow> string + string" where
  "fixture_encode payload =
     (case payload of
        None \<Rightarrow> Inr ''null''
      | Some m \<Rightarrow> if m ''stream_options'' = None then Inr stream_request
                  else Inr stream_request_with_options)"

definition failing_Marshal :: "(string \<rightharpoonup> json) option \<Rightarrow> string + string" where
  "failing_Marshal payload = Inl ''unsupported value''"

definition fixture_ParseResponse :: "string \<Rightarrow> string \<Rightarrow> Entry \<Rightarrow> Entry" where
  "fixture_ParseResponse provider body entry =
     entry\<lparr>Model := ''gpt-4o'', Entry.InputTokens := 1000, Entry.OutputTokens := 500,
           CostKnown := True\<rparr>"

definition fixture_ParseChunk ::
  "string \<Rightarrow> string \<Rightarrow> (go_int \<times> go_int \<times> (string \<rightharpoonup> json) option) option \<times> string" where
  "fixture_ParseChunk provider payload =
     (if payload = ''usage'' then (Some (1000, 500, None), ''gpt-4o'') else (None, []))"

definition fixture_response :: "Reader Response" where
  "fixture_response = \<lparr>StatusCode = 200, ContentType = ''application/json'',
     RespBody = Reader [''{'', ''}''] None, RespContentLength = 2\<rparr>"

text \<open>A 200 JSON response whose body breaks off with a read error.\<close>

definition broken_response :: "Reader Response" where
  "broken_response = \<lparr>StatusCode = 200, ContentType = ''application/json'',
     RespBody = Reader [''{''] (Some ''unexpected EOF''), RespContentLength = 2\<rparr>"

text \<open>
  A 200 event-stream response in two chunks, the first with a usage payload that the
  recognition of \<open>stream_world\<close> knows, the second with the terminator.
\<close>

definition stream_response :: "Reader Response" where
  "stream_response = \<lparr>StatusCode = 200, ContentType = ''text/event-stream'',
     RespBody = Reader [''data: usage'' @ [CHR 0x0A, CHR 0x0A],
                        ''data: [DONE]'' @ [CHR 0x0A, CHR 0x0A]] None,
     RespContentLength = - 1\<rparr>"

definition fixture_world :: World where
  "fixture_world =
     \<lparr>Getenv = (\<lambda>name. []), url_Parse = (\<lambda>s. Inl ''invalid URL''),
      json_Unmarshal = fixture_decode, json_Marshal = fixture_encode,
      ParseResponse = fixture_ParseResponse, ParseChunk = (\<lambda>provider payload. (None, [])),
      RoundTrip = (\<lambda>out. Inr fixture_response), client_gone = None\<rparr>"

definition stream_world :: World where
  "stream_world = fixture_world\<lparr>ParseChunk := fixture_ParseChunk,
     RoundTrip := (\<lambda>out. Inr stream_response)\<rparr>"

definition fixture_config :: Config where
  "fixture_config = \<lparr>Providers = [''openai'', ''anthropic'', ''openrouter''], OnEntry = True,
     StreamUsageInjection = True\<rparr>"

text \<open>
  Two requests to the OpenAI prefix, one whose body is not JSON and one that asks for a
  stream, and a \<^verbatim>\<open>json.Marshal\<close> that fails.
\<close>

definition text_request :: Request where
  "text_request = \<lparr>Path = ''/openai/v1/chat/completions'',
     Body = Some (Reader [''not json''] None), ContentLength = 8\<rparr>"

definition streaming_request :: Request where
  "streaming_request = \<lparr>Path = ''/openai/v1/chat/completions'',
     Body = Some (Reader [stream_request] None), ContentLength = 15\<rparr>"

text \<open>
  A 200 JSON response whose body is the payload that the recognition of \<open>stream_world\<close>
  knows, a world whose upstream answers with it, and a world whose recognition reports a
  negative input-token count.
\<close>

definition usage_response :: "Reader Response" where
  "usage_response = \<lparr>StatusCode = 200, ContentType = ''application/json'',
     RespBody = Reader [''usage''] None, RespContentLength = 5\<rparr>"

definition buffered_world :: World where
  "buffered_world = stream_world\<lparr>RoundTrip := (\<lambda>out. Inr usage_response)\<rparr>"

definition negative_ParseChunk ::
  "string \<Rightarrow> string \<Rightarrow> (go_int \<times> go_int \<times> (string \<rightharpoonup> json) option) option \<times> string" where
  "negative_ParseChunk provider payload = (Some (- 1000, 0, None), ''gpt-4o'')"

definition negative_usage_world :: World where
  "negative_usage_world = buffered_world\<lparr>ParseChunk := negative_ParseChunk\<rparr>"

section \<open>Verified properties\<close>

subsection \<open>The float64 model\<close>

text \<open>
  Checks of the model of float64 against IEEE 754: the exponent that \<open>floor_log2\<close>
  computes is the right one, rounding is to a nearest integer multiple of the unit in the
  last place and goes to the even one at a tie, the error of \<open>round64\<close> is at most
  half a unit in the last place, and some known values.
\<close>

lemma pow2_pos: "0 < pow2 e"
  by (simp add: pow2_def)

lemma pow2_powi: "pow2 e = 2 powi e"
  by (simp add: pow2_def power_int_def field_simps)

lemma pow2_add: "pow2 (a + b) = pow2 a * pow2 b"
  by (simp add: pow2_powi power_int_add)

lemma pow2_diff: "pow2 (a - b) = pow2 a / pow2 b"
  by (simp add: pow2_powi power_int_diff)

lemma pow2_nat: "0 \<le> e \<Longrightarrow> pow2 e = 2 ^ nat e"
  by (simp add: pow2_def)

lemma round_half_even_error: "\<bar>of_int (round_half_even x) - x\<bar> \<le> 1 / 2"
proof -
  have "of_int \<lfloor>x\<rfloor> \<le> x" and "x < of_int \<lfloor>x\<rfloor> + 1"
    by linarith+
  then show ?thesis
    unfolding round_half_even_def Let_def by (simp add: abs_if) linarith
qed

lemma round_half_even_tie: "x - of_int \<lfloor>x\<rfloor> = 1 / 2 \<Longrightarrow> even (round_half_even x)"
  by (simp add: round_half_even_def Let_def)

lemma round_half_even_int: "round_half_even (of_int k) = k"
  by (simp add: round_half_even_def Let_def)

lemma round_half_even_nonneg: "0 \<le> x \<Longrightarrow> 0 \<le> round_half_even x"
  by (simp add: round_half_even_def Let_def)

lemma quotient_of_pos:
  assumes "0 < q" and "quotient_of q = (a, b)"
  shows "0 < a \<and> 0 < b \<and> q = of_int a / of_int b"
  by (metis assms(1,2) div_0 divide_less_cancel of_int_0_less_iff
    quotient_of_denom_pos quotient_of_div)

lemma bitlen_pow2_bounds:
  assumes "0 < a"
  shows "pow2 (bitlen a - 1) \<le> of_int a" and "of_int a < pow2 (bitlen a)"
proof -
  have l: "1 \<le> bitlen a" using assms by (simp add: bitlen_alt_def)
  from bitlen_bounds [OF assms] have "2 ^ nat (bitlen a - 1) \<le> a" and "a < 2 ^ nat (bitlen a)"
    by simp_all
  then have "rat_of_int (2 ^ nat (bitlen a - 1)) \<le> of_int a" and "rat_of_int a < of_int (2 ^ nat (bitlen a))"
    by (simp_all only: of_int_le_iff of_int_less_iff)
  then show "pow2 (bitlen a - 1) \<le> of_int a" and "of_int a < pow2 (bitlen a)"
    using l by (simp_all add: pow2_nat)
qed

lemma floor_log2_bounds:
  assumes "0 < q"
  shows "pow2 (floor_log2 q) \<le> q \<and> q < pow2 (floor_log2 q + 1)"
proof -
  obtain a b where ab: "quotient_of q = (a, b)" by (cases "quotient_of q")
  from quotient_of_pos [OF assms ab] have a: "0 < a" and b: "0 < b"
    and q: "q = of_int a / of_int b" by simp_all
  define e0 where "e0 = bitlen a - bitlen b"
  have fl: "floor_log2 q = (if pow2 e0 \<le> q then e0 else e0 - 1)"
    by (simp add: floor_log2_def ab e0_def Let_def)
  note A = bitlen_pow2_bounds [OF a]
  note B = bitlen_pow2_bounds [OF b]
  have "q < pow2 (bitlen a) / pow2 (bitlen b - 1)"
    unfolding q using A(2) B(1) a b pow2_pos [of "bitlen b - 1"]
    by (simp add: frac_less)
  then have up: "q < pow2 (e0 + 1)"
    by (simp add: e0_def pow2_diff [symmetric] algebra_simps)
  have "pow2 (bitlen a - 1) / pow2 (bitlen b) < q"
    unfolding q using A(1) B(2) a b pow2_pos [of "bitlen a - 1"]
    by (meson frac_less2 of_int_0_less_iff)
  then have lo: "pow2 (e0 - 1) < q"
    by (simp add: e0_def pow2_diff [symmetric] algebra_simps)
  show ?thesis
    using up lo by (auto simp: fl)
qed

lemma round64_error:
  assumes "round64 q = Finite r"
  shows "\<bar>r - q\<bar> \<le> pow2 (max (floor_log2 \<bar>q\<bar>) (- 1022) - 53)"
proof (cases "q = 0")
  case True
  with assms show ?thesis using pow2_pos [of "max (floor_log2 \<bar>q\<bar>) (- 1022) - 53"]
    by (simp add: round64_def)
next
  case False
  define e where "e = max (floor_log2 \<bar>q\<bar>) (- 1022)"
  have r: "r = of_int (round_half_even (q / pow2 (e - 52))) * pow2 (e - 52)"
    using assms False by (simp add: round64_def Let_def e_def split: if_splits)
  have u: "0 < pow2 (e - 52)" by (rule pow2_pos)
  have "r - q = (of_int (round_half_even (q / pow2 (e - 52))) - q / pow2 (e - 52)) * pow2 (e - 52)"
    using u by (simp add: r left_diff_distrib)
  then have "\<bar>r - q\<bar> = \<bar>of_int (round_half_even (q / pow2 (e - 52))) - q / pow2 (e - 52)\<bar> * \<bar>pow2 (e - 52)\<bar>"
    by (simp only: abs_mult)
  also have "\<dots> = \<bar>of_int (round_half_even (q / pow2 (e - 52))) - q / pow2 (e - 52)\<bar> * pow2 (e - 52)"
    using u by simp
  also have "\<dots> \<le> 1 / 2 * pow2 (e - 52)"
    using round_half_even_error [of "q / pow2 (e - 52)"] u by (simp add: mult_right_mono)
  also have "\<dots> = pow2 (e - 53)"
    using pow2_diff [of "e - 52" 1] by (simp add: pow2_def [of 1])
  finally show ?thesis by (simp add: e_def)
qed

text \<open>
  The float64 nearest to 0.1 is \<open>0x3FB999999999999A\<close>; 0.1 + 0.2 is not the float64 0.3;
  \<open>2^53 + 1\<close> is a tie and rounds to the even neighbour; 1/3 is \<open>0x3FD5555555555555\<close>.
\<close>

lemma float64_values:
  "float64_lit (1 / 10) = Finite (3602879701896397 / 2 ^ 55)"
  "fadd (float64_lit (1 / 10)) (float64_lit (2 / 10)) = Finite (5404319552844596 / 2 ^ 54)"
  "float64_lit (3 / 10) = Finite (5404319552844595 / 2 ^ 54)"
  "round64 (2 ^ 53 + 1) = Finite (2 ^ 53)"
  "round64 (2 ^ 53 + 3) = Finite (2 ^ 53 + 4)"
  "round64 (1 / 3) = Finite (6004799503160661 / 2 ^ 54)"
  by code_simp+

text \<open>Signs: what is computed from numbers that are not negative is not negative.\<close>

lemma round64_positive_cases:
  assumes "0 < q"
  shows "round64 q = PosInf
       \<or> (\<exists>e. round64 q = Finite (of_int (round_half_even (q / pow2 (e - 52))) * pow2 (e - 52)))"
  using assms by (auto simp: round64_def Let_def)

lemma round64_nonneg: "0 \<le> q \<Longrightarrow> fle (Finite 0) (round64 q)"
proof -
  assume q: "0 \<le> q"
  show ?thesis
  proof (cases "q = 0")
    case True
    then show ?thesis by (simp add: round64_def)
  next
    case False
    with q have pos: "0 < q" by simp
    have nn: "0 \<le> rat_of_int (round_half_even (q / pow2 (e - 52))) * pow2 (e - 52)" for e
    proof -
      have "0 \<le> q / pow2 (e - 52)" using q pow2_pos [of "e - 52"] by simp
      then have "0 \<le> round_half_even (q / pow2 (e - 52))" by (rule round_half_even_nonneg)
      then show ?thesis using pow2_pos [of "e - 52"] by simp
    qed
    from round64_positive_cases [OF pos] show ?thesis
    proof
      assume "round64 q = PosInf"
      then show ?thesis by simp
    next
      assume "\<exists>e. round64 q = Finite (of_int (round_half_even (q / pow2 (e - 52))) * pow2 (e - 52))"
      then obtain e where "round64 q = Finite (of_int (round_half_even (q / pow2 (e - 52))) * pow2 (e - 52))"
        by blast
      then show ?thesis using nn [of e] by simp
    qed
  qed
qed

lemma round64_finite:
  assumes "0 \<le> q" and "q \<noteq> 0 \<Longrightarrow> floor_log2 q \<le> 1022"
  shows "\<exists>a. round64 q = Finite a \<and> 0 \<le> a"
proof (cases "q = 0")
  case True
  then show ?thesis by (simp add: round64_def)
next
  case False
  with assms have pos: "0 < q" and e: "floor_log2 q \<le> 1022" by simp_all
  have "round64 q \<noteq> PosInf" using pos e by (simp add: round64_def Let_def max_def)
  moreover have "round64 q \<noteq> NegInf" using pos e by (simp add: round64_def Let_def)
  moreover have "round64 q \<noteq> NaN" using pos e by (simp add: round64_def Let_def)
  ultimately obtain a where a: "round64 q = Finite a" by (cases "round64 q") simp_all
  with round64_nonneg [of q] pos show ?thesis by simp
qed

lemma floor_log2_of_int:
  assumes "0 < k" and "k < 2 ^ 63"
  shows "floor_log2 (of_int k) \<le> 63"
proof -
  have "bitlen k \<le> 63" using assms by (simp add: bitlen_le_iff_power)
  moreover have "bitlen 1 = 1" by (simp add: bitlen_alt_def)
  ultimately show ?thesis by (simp add: floor_log2_def Let_def)
qed

lemma float64_of_int_nonneg:
  assumes "0 \<le>s n"
  shows "\<exists>a. float64_of_int n = Finite a \<and> 0 \<le> a"
proof -
  have k0: "0 \<le> sint n" using assms by (simp add: word_sle_eq)
  have k1: "sint n < 2 ^ 63" using sint_lt [of n] by simp
  have "0 \<le> rat_of_int (sint n)" using k0 by (simp only: of_int_0_le_iff)
  moreover have "floor_log2 (rat_of_int (sint n)) \<le> 1022" if "rat_of_int (sint n) \<noteq> 0"
  proof -
    from that k0 have "0 < sint n" by (cases "sint n = 0") simp_all
    from floor_log2_of_int [OF this k1] show ?thesis by simp
  qed
  ultimately show ?thesis unfolding float64_of_int_def by (rule round64_finite)
qed

lemma fmul_nonneg:
  assumes "x = Finite a" "0 \<le> a" "nonneg_rate y"
  shows "fle (Finite 0) (fmul x y)"
proof -
  obtain b where y: "y = Finite b" and b: "0 \<le> b"
    using assms(3) by (cases y) (simp_all add: nonneg_rate_def)
  show ?thesis using assms(1,2) b by (simp add: y round64_nonneg)
qed

lemma fadd_nonneg:
  assumes "fle (Finite 0) x" and "fle (Finite 0) y"
  shows "fle (Finite 0) (fadd x y)"
  using assms by (cases x; cases y) (simp_all add: round64_nonneg)

lemma fdiv_1000_nonneg:
  assumes "fle (Finite 0) x"
  shows "fle (Finite 0) (fdiv x (Finite 1000))"
  using assms by (cases x) (simp_all add: round64_nonneg inf_of_sign_def fsign_def)

subsection \<open>The aggregator\<close>

lemma Summary_step_fields:
  "TotalCalls (Summary_step s e) = TotalCalls s + 1"
  "TotalInputTokens (Summary_step s e) = TotalInputTokens s + Entry.InputTokens e"
  "TotalOutputTokens (Summary_step s e) = TotalOutputTokens s + Entry.OutputTokens e"
  "KnownCostCalls (Summary_step s e) = KnownCostCalls s + (if CostKnown e then 1 else 0)"
  "UnknownCostCalls (Summary_step s e) = UnknownCostCalls s + (if CostKnown e then 0 else 1)"
  "TotalKnownCostUSD (Summary_step s e) =
     (if CostKnown e then fadd (TotalKnownCostUSD s) (Entry.CostUSD e) else TotalKnownCostUSD s)"
  by (simp_all add: Summary_step_def Let_def)

text \<open>What the loop has computed, field by field, from any starting summary.\<close>

lemma Summary_loop_TotalCalls:
  "TotalCalls (Summary_loop s es) = TotalCalls s + of_nat (length es)"
  by (induction es arbitrary: s) (simp_all add: Summary_step_fields)

lemma Summary_loop_TotalInputTokens:
  "TotalInputTokens (Summary_loop s es) = TotalInputTokens s + sum_list (map Entry.InputTokens es)"
  by (induction es arbitrary: s) (simp_all add: Summary_step_fields add.assoc)

lemma Summary_loop_TotalOutputTokens:
  "TotalOutputTokens (Summary_loop s es) = TotalOutputTokens s + sum_list (map Entry.OutputTokens es)"
  by (induction es arbitrary: s) (simp_all add: Summary_step_fields add.assoc)

lemma Summary_loop_KnownCostCalls:
  "KnownCostCalls (Summary_loop s es) = KnownCostCalls s + of_nat (length (filter CostKnown es))"
  by (induction es arbitrary: s) (simp_all add: Summary_step_fields add.assoc)

lemma Summary_loop_UnknownCostCalls:
  "UnknownCostCalls (Summary_loop s es) =
     UnknownCostCalls s + of_nat (length (filter (\<lambda>e. \<not> CostKnown e) es))"
  by (induction es arbitrary: s) (simp_all add: Summary_step_fields add.assoc)

lemma Summary_loop_TotalKnownCostUSD:
  "TotalKnownCostUSD (Summary_loop s es) =
     foldl fadd (TotalKnownCostUSD s) (map Entry.CostUSD (filter CostKnown es))"
  by (induction es arbitrary: s) (simp_all add: Summary_step_fields)

lemma Add_all_append: "Add_all a es = a @ es"
  by (induction es arbitrary: a) (simp_all add: Add_def)

lemma Summary_TotalKnownCostUSD:
  "TotalKnownCostUSD (Summary (Add_all NewAggregator es)) =
     foldl fadd (Finite 0) (map Entry.CostUSD (filter CostKnown es))"
  by (simp add: Summary_def Add_all_append NewAggregator_def Summary_loop_TotalKnownCostUSD
      Summary_init_def)

lemma length_filter_mset: "mset xs = mset ys \<Longrightarrow> length (filter P xs) = length (filter P ys)"
  by (metis mset_filter size_mset)

lemma sum_list_map_mset:
  fixes f :: "'a \<Rightarrow> 'b::comm_monoid_add"
  shows "mset xs = mset ys \<Longrightarrow> sum_list (map f xs) = sum_list (map f ys)"
  by (metis mset_map sum_mset_sum_list)

lemma known_entry_costs: "map Entry.CostUSD (filter CostKnown (map known_entry cs)) = cs"
  by (induction cs) (simp_all add: known_entry_def)

text \<open>
  Claim C2, as stated, fails: \<open>TotalKnownCostUSD\<close> is accumulated with float64 additions
  in the order of the entries, and float64 addition is not associative. Three cost-known
  entries of 0.1, 0.2 and 0.3 USD sum to 0.6000000000000001 in this order and to 0.6 in
  the reverse order.
\<close>

theorem Summary_cost_order_counterexample:
  "mset (map known_entry [float64_lit (1 / 10), float64_lit (2 / 10), float64_lit (3 / 10)])
     = mset (map known_entry [float64_lit (3 / 10), float64_lit (2 / 10), float64_lit (1 / 10)])
   \<and> TotalKnownCostUSD (Summary (Add_all NewAggregator
        (map known_entry [float64_lit (1 / 10), float64_lit (2 / 10), float64_lit (3 / 10)])))
     \<noteq> TotalKnownCostUSD (Summary (Add_all NewAggregator
        (map known_entry [float64_lit (3 / 10), float64_lit (2 / 10), float64_lit (1 / 10)])))"
proof -
  have ne: "foldl fadd (Finite 0) [float64_lit (1 / 10), float64_lit (2 / 10), float64_lit (3 / 10)]
        \<noteq> foldl fadd (Finite 0) [float64_lit (3 / 10), float64_lit (2 / 10), float64_lit (1 / 10)]"
    by code_simp
  have perm: "mset (map known_entry [float64_lit (1 / 10), float64_lit (2 / 10), float64_lit (3 / 10)])
     = mset (map known_entry [float64_lit (3 / 10), float64_lit (2 / 10), float64_lit (1 / 10)])"
    by (simp add: add_mset_commute)
  show ?thesis
    unfolding Summary_TotalKnownCostUSD known_entry_costs
    using ne perm by (rule_tac conjI)
qed

text \<open>
  Claim C2, amended: for two lists of entries that are permutations of each other
  (\<open>mset es = mset es'\<close>), the summaries computed after adding the entries in either
  order have equal \<open>TotalCalls\<close>, \<open>KnownCostCalls\<close>, \<open>UnknownCostCalls\<close>,
  \<open>TotalInputTokens\<close> and \<open>TotalOutputTokens\<close>; \<open>TotalKnownCostUSD\<close> is equal when
  the costs of the cost-known entries come in the same order in both lists.
\<close>

theorem Summary_permutation:
  assumes "mset es = mset es'"
  shows "TotalCalls (Summary (Add_all NewAggregator es)) = TotalCalls (Summary (Add_all NewAggregator es'))
       \<and> KnownCostCalls (Summary (Add_all NewAggregator es)) = KnownCostCalls (Summary (Add_all NewAggregator es'))
       \<and> UnknownCostCalls (Summary (Add_all NewAggregator es)) = UnknownCostCalls (Summary (Add_all NewAggregator es'))
       \<and> TotalInputTokens (Summary (Add_all NewAggregator es)) = TotalInputTokens (Summary (Add_all NewAggregator es'))
       \<and> TotalOutputTokens (Summary (Add_all NewAggregator es)) = TotalOutputTokens (Summary (Add_all NewAggregator es'))
       \<and> (map Entry.CostUSD (filter CostKnown es) = map Entry.CostUSD (filter CostKnown es')
            \<longrightarrow> TotalKnownCostUSD (Summary (Add_all NewAggregator es))
                = TotalKnownCostUSD (Summary (Add_all NewAggregator es')))"
proof -
  have len: "length es = length es'"
    using assms by (metis size_mset)
  have known: "length (filter CostKnown es) = length (filter CostKnown es')"
    by (rule length_filter_mset [OF assms])
  have unknown: "length (filter (\<lambda>e. \<not> CostKnown e) es) = length (filter (\<lambda>e. \<not> CostKnown e) es')"
    by (rule length_filter_mset [OF assms])
  have inp: "sum_list (map Entry.InputTokens es) = sum_list (map Entry.InputTokens es')"
    by (rule sum_list_map_mset [OF assms])
  have out: "sum_list (map Entry.OutputTokens es) = sum_list (map Entry.OutputTokens es')"
    by (rule sum_list_map_mset [OF assms])
  show ?thesis
    unfolding Summary_def Add_all_append NewAggregator_def append_Nil
      Summary_loop_TotalCalls Summary_loop_KnownCostCalls Summary_loop_UnknownCostCalls
      Summary_loop_TotalInputTokens Summary_loop_TotalOutputTokens Summary_loop_TotalKnownCostUSD
    using len known unknown inp out by simp
qed

theorem Summary_permutation_witness:
  "mset [known_entry (Finite 1), unknown_entry ''usage missing'', known_entry (Finite 2)]
     = mset [unknown_entry ''usage missing'', known_entry (Finite 1), known_entry (Finite 2)]
   \<and> TotalCalls (Summary (Add_all NewAggregator
        [known_entry (Finite 1), unknown_entry ''usage missing'', known_entry (Finite 2)])) = 3
   \<and> TotalCalls (Summary (Add_all NewAggregator
        [unknown_entry ''usage missing'', known_entry (Finite 1), known_entry (Finite 2)])) = 3
   \<and> TotalKnownCostUSD (Summary (Add_all NewAggregator
        [known_entry (Finite 1), unknown_entry ''usage missing'', known_entry (Finite 2)]))
     = TotalKnownCostUSD (Summary (Add_all NewAggregator
        [unknown_entry ''usage missing'', known_entry (Finite 1), known_entry (Finite 2)]))"
proof -
  have perm: "mset [known_entry (Finite 1), unknown_entry ''usage missing'', known_entry (Finite 2)]
     = mset [unknown_entry ''usage missing'', known_entry (Finite 1), known_entry (Finite 2)]"
    by (simp add: add_mset_commute)
  have order: "map Entry.CostUSD (filter CostKnown
        [known_entry (Finite 1), unknown_entry ''usage missing'', known_entry (Finite 2)])
      = map Entry.CostUSD (filter CostKnown
        [unknown_entry ''usage missing'', known_entry (Finite 1), known_entry (Finite 2)])"
    by (simp add: known_entry_def unknown_entry_def)
  have calls: "TotalCalls (Summary (Add_all NewAggregator
        [unknown_entry ''usage missing'', known_entry (Finite 1), known_entry (Finite 2)])) = 3"
    by (simp add: Summary_def Add_all_append NewAggregator_def Summary_init_def Summary_step_fields)
  from Summary_permutation [OF perm] perm order calls show ?thesis
    by simp
qed

subsection \<open>Pricing\<close>

text \<open>
  Claim C4: for a model that is in the pricing table, with prices \<open>mp\<close>, \<open>ComputeCost\<close>
  returns \<open>Known = True\<close>, no reason, and the cost
  \<open>(inTok \<times> InputPer1K + outTok \<times> OutputPer1K) / 1000\<close> computed in float64; with the
  rates 0.0025 and 0.01, 1000 input and 500 output tokens cost 0.0075 (the float64 that
  this literal denotes) and the cost is known.
\<close>

theorem ComputeCost_known_model:
  "(map_index (Models p) model = Some mp \<longrightarrow>
      ComputeCost multi p model inTok outTok =
        \<lparr>CostResult.CostUSD = fdiv (fadd (fmul (float64_of_int inTok) (InputPer1K mp))
                               (fmul (float64_of_int outTok) (OutputPer1K mp)))
                         (Finite 1000),
         Known = True, CostResult.UnknownReason = []\<rparr>)
   \<and> ComputeCost multi test_prices ''gpt-4o'' 1000 500 =
        \<lparr>CostResult.CostUSD = float64_lit (75 / 10000), Known = True, CostResult.UnknownReason = []\<rparr>"
proof -
  have cost: "fdiv (fadd (fmul (float64_of_int 1000) (float64_lit (25 / 10000)))
                         (fmul (float64_of_int 500) (float64_lit (1 / 100))))
                   (Finite 1000) = float64_lit (75 / 10000)"
    by code_simp
  have "ComputeCost multi test_prices ''gpt-4o'' 1000 500 =
        \<lparr>CostResult.CostUSD = fdiv (fadd (fmul (float64_of_int 1000) (float64_lit (25 / 10000)))
                         (fmul (float64_of_int 500) (float64_lit (1 / 100))))
                   (Finite 1000), Known = True, CostResult.UnknownReason = []\<rparr>"
    unfolding ComputeCost_def test_prices_def map_index_def by simp
  then show ?thesis
    unfolding cost by (simp add: ComputeCost_def)
qed

theorem ComputeCost_known_model_witness:
  "map_index (Models test_prices) ''gpt-4o''
     = Some \<lparr>InputPer1K = float64_lit (25 / 10000), OutputPer1K = float64_lit (1 / 100)\<rparr>
   \<and> Known (ComputeCost copy_rune test_prices ''gpt-4o'' 1000 500)
   \<and> CostResult.CostUSD (ComputeCost copy_rune test_prices ''gpt-4o'' 1000 500)
       = fdiv (fadd (fmul (float64_of_int 1000) (float64_lit (25 / 10000)))
                    (fmul (float64_of_int 500) (float64_lit (1 / 100))))
              (Finite 1000)"
proof -
  have h: "map_index (Models test_prices) ''gpt-4o''
     = Some \<lparr>InputPer1K = float64_lit (25 / 10000), OutputPer1K = float64_lit (1 / 100)\<rparr>"
    by (simp add: test_prices_def map_index_def)
  from ComputeCost_known_model [where p = test_prices and model = "''gpt-4o''"
      and mp = "\<lparr>InputPer1K = float64_lit (25 / 10000), OutputPer1K = float64_lit (1 / 100)\<rparr>"
      and multi = copy_rune and inTok = 1000 and outTok = 500] h
  have "ComputeCost copy_rune test_prices ''gpt-4o'' 1000 500 =
        \<lparr>CostResult.CostUSD = fdiv (fadd (fmul (float64_of_int 1000) (float64_lit (25 / 10000)))
                         (fmul (float64_of_int 500) (float64_lit (1 / 100))))
                   (Finite 1000), Known = True, CostResult.UnknownReason = []\<rparr>"
    by simp
  with h show ?thesis by simp
qed

lemma appendQuoted_plain: "plain_name s \<Longrightarrow> appendQuoted multi s = s"
  by (induction s) (simp_all add: plain_name_def appendEscapedRune_def)

lemma Quote_plain: "plain_name s \<Longrightarrow> Quote multi s = dquote # s @ [dquote]"
  by (simp add: Quote_def appendQuoted_plain)

text \<open>
  Claim C5, as stated, fails for a model name that \<^verbatim>\<open>%q\<close> does not print verbatim: for
  the name \<^verbatim>\<open>a"b\<close> the reason is \<^verbatim>\<open>model "a\"b" not in pricing table\<close>, in which the
  name does not occur.
\<close>

theorem ComputeCost_unknown_model_counterexample:
  "map_index (Models test_prices) (''a'' @ [dquote] @ ''b'') = None
   \<and> \<not> Contains (CostResult.UnknownReason
          (ComputeCost copy_rune test_prices (''a'' @ [dquote] @ ''b'') 100 50))
        (''a'' @ [dquote] @ ''b'')"
  by code_simp

text \<open>
  Claim C5, amended: for a model that is not in the pricing table and any token counts,
  \<open>ComputeCost\<close> returns \<open>Known = False\<close>, the cost 0 and the reason
  \<^verbatim>\<open>model <name as %q prints it> not in pricing table\<close>; the reason contains the model
  name itself when the name is made of printable ASCII characters other than the double
  quote and the backslash.
\<close>

theorem ComputeCost_unknown_model:
  assumes "map_index (Models p) model = None"
  shows "\<not> Known (ComputeCost multi p model inTok outTok)
       \<and> CostResult.CostUSD (ComputeCost multi p model inTok outTok) = Finite 0
       \<and> CostResult.UnknownReason (ComputeCost multi p model inTok outTok)
           = ''model '' @ Quote multi model @ '' not in pricing table''
       \<and> (plain_name model \<longrightarrow>
            Contains (CostResult.UnknownReason (ComputeCost multi p model inTok outTok)) model)"
proof -
  have r: "ComputeCost multi p model inTok outTok =
      \<lparr>CostResult.CostUSD = Finite 0, Known = False,
        CostResult.UnknownReason = ''model '' @ Quote multi model @ '' not in pricing table''\<rparr>"
    using assms by (simp add: ComputeCost_def)
  have "sublist model (''model '' @ (dquote # model @ [dquote]) @ '' not in pricing table'')"
    unfolding sublist_def
    by (rule exI [of _ "''model '' @ [dquote]"], rule exI [of _ "[dquote] @ '' not in pricing table''"]) simp
  then show ?thesis
    unfolding r by (simp add: Contains_def Quote_plain)
qed

theorem ComputeCost_unknown_model_witness:
  "map_index (Models test_prices) ''unknown-model'' = None
   \<and> plain_name ''unknown-model''
   \<and> \<not> Known (ComputeCost copy_rune test_prices ''unknown-model'' 100 50)
   \<and> Contains (CostResult.UnknownReason (ComputeCost copy_rune test_prices ''unknown-model'' 100 50))
        ''unknown-model''"
proof -
  have h: "map_index (Models test_prices) ''unknown-model'' = None"
    by (simp add: test_prices_def map_index_def)
  have pl: "plain_name ''unknown-model''"
    by (simp add: plain_name_def dquote_def backslash_def)
  from ComputeCost_unknown_model [OF h, where multi = copy_rune and inTok = 100 and outTok = 50]
    h pl show ?thesis
    by blast
qed

text \<open>
  Claim C10: when the pricing file is read and decoded and the decoded value has no
  \<open>Models\<close> map (the document has no \<^verbatim>\<open>"models"\<close> member), \<open>Load\<close> returns the value
  with an empty, non-nil map, and \<open>ComputeCost\<close> on it returns \<open>Known = False\<close> for
  every model and all token counts. (\<open>ComputeCost\<close> has no failing branch: reading a Go
  map does not panic.)
\<close>

theorem Load_without_models:
  assumes "ReadFile path = Inr data" and "Unmarshal data = Inr p" and "Models p = None"
  shows "Load ReadFile Unmarshal path = Inr (p\<lparr>Models := Some Map.empty\<rparr>)
       \<and> (\<forall>model inTok outTok.
            ComputeCost multi (p\<lparr>Models := Some Map.empty\<rparr>) model inTok outTok =
              \<lparr>CostResult.CostUSD = Finite 0, Known = False,
                CostResult.UnknownReason = ''model '' @ Quote multi model @ '' not in pricing table''\<rparr>)"
  using assms by (simp add: Load_def ComputeCost_def map_index_def)

theorem Load_without_models_witness:
  "fixture_ReadFile ''prices.json'' = Inr ''{}''
   \<and> fixture_Unmarshal ''{}'' = Inr \<lparr>AsOf = [], Models = None\<rparr>
   \<and> Load fixture_ReadFile fixture_Unmarshal ''prices.json''
       = Inr \<lparr>AsOf = [], Models = Some Map.empty\<rparr>
   \<and> \<not> Known (ComputeCost copy_rune \<lparr>AsOf = [], Models = Some Map.empty\<rparr> ''gpt-4o'' 1000 500)"
proof -
  have r: "fixture_ReadFile ''prices.json'' = Inr ''{}''"
    by (simp add: fixture_ReadFile_def)
  have u: "fixture_Unmarshal ''{}'' = Inr \<lparr>AsOf = [], Models = None\<rparr>"
    by (simp add: fixture_Unmarshal_def)
  from Load_without_models [where ReadFile = fixture_ReadFile and Unmarshal = fixture_Unmarshal
      and path = "''prices.json''" and data = "''{}''" and p = "\<lparr>AsOf = [], Models = None\<rparr>"
      and multi = copy_rune] r u
  show ?thesis by simp
qed

text \<open>
  Claim C6: \<open>IsStale\<close> is true when \<open>AsOf\<close> does not parse with the layout
  \<^verbatim>\<open>2006-01-02\<close>; when it parses, \<open>IsStale\<close> is true exactly when the time elapsed
  since that date, as \<^verbatim>\<open>time.Since\<close> gives it, is greater than \<open>maxAge\<close>.
\<close>

theorem IsStale_cases:
  "(Parse ''2006-01-02'' (AsOf p) = Inl err \<longrightarrow> IsStale Parse Since p maxAge)
   \<and> (Parse ''2006-01-02'' (AsOf p) = Inr asOf \<longrightarrow>
        (IsStale Parse Since p maxAge \<longleftrightarrow> maxAge <s Since asOf))"
  by (simp add: IsStale_def)

theorem IsStale_cases_witness:
  "fixture_Parse ''2006-01-02'' ''invalid'' = Inl ''cannot parse''
   \<and> IsStale fixture_Parse fixture_Since \<lparr>AsOf = ''invalid'', Models = None\<rparr> (60 * 24 * Hour)
   \<and> fixture_Parse ''2006-01-02'' ''2020-01-01'' = Inr 18262
   \<and> 60 * 24 * Hour <s fixture_Since 18262
   \<and> IsStale fixture_Parse fixture_Since \<lparr>AsOf = ''2020-01-01'', Models = None\<rparr> (60 * 24 * Hour)
   \<and> \<not> 3000 * 24 * Hour <s fixture_Since 18262
   \<and> \<not> IsStale fixture_Parse fixture_Since \<lparr>AsOf = ''2020-01-01'', Models = None\<rparr> (3000 * 24 * Hour)"
proof -
  have a: "fixture_Parse ''2006-01-02'' ''invalid'' = Inl ''cannot parse''"
    by (simp add: fixture_Parse_def)
  have b: "fixture_Parse ''2006-01-02'' ''2020-01-01'' = Inr 18262"
    by (simp add: fixture_Parse_def)
  have c: "60 * 24 * Hour <s fixture_Since 18262"
    by (simp add: fixture_Since_def Hour_def)
  have d: "\<not> 3000 * 24 * Hour <s fixture_Since 18262"
    by (simp add: fixture_Since_def Hour_def)
  from IsStale_cases [where Parse = fixture_Parse and Since = fixture_Since
      and p = "\<lparr>AsOf = ''invalid'', Models = None\<rparr>" and err = "''cannot parse''"
      and maxAge = "60 * 24 * Hour"] a
  have e: "IsStale fixture_Parse fixture_Since \<lparr>AsOf = ''invalid'', Models = None\<rparr> (60 * 24 * Hour)"
    by simp
  from IsStale_cases [where Parse = fixture_Parse and Since = fixture_Since
      and p = "\<lparr>AsOf = ''2020-01-01'', Models = None\<rparr>" and asOf = 18262
      and maxAge = "60 * 24 * Hour"] b c
  have f: "IsStale fixture_Parse fixture_Since \<lparr>AsOf = ''2020-01-01'', Models = None\<rparr> (60 * 24 * Hour)"
    by simp
  from IsStale_cases [where Parse = fixture_Parse and Since = fixture_Since
      and p = "\<lparr>AsOf = ''2020-01-01'', Models = None\<rparr>" and asOf = 18262
      and maxAge = "3000 * 24 * Hour"] b d
  have g: "\<not> IsStale fixture_Parse fixture_Since \<lparr>AsOf = ''2020-01-01'', Models = None\<rparr> (3000 * 24 * Hour)"
    by simp
  from a b c d e f g show ?thesis by blast
qed

subsection \<open>The pricing stage\<close>

lemma ComputeCost_nonneg:
  assumes "map_index (Models p) model = Some mp"
    and "nonneg_rate (InputPer1K mp)" and "nonneg_rate (OutputPer1K mp)"
    and "0 \<le>s inTok" and "0 \<le>s outTok"
  shows "fle (Finite 0) (CostResult.CostUSD (ComputeCost multi p model inTok outTok))"
proof -
  obtain a where a: "float64_of_int inTok = Finite a" "0 \<le> a"
    using float64_of_int_nonneg [OF assms(4)] by blast
  obtain b where b: "float64_of_int outTok = Finite b" "0 \<le> b"
    using float64_of_int_nonneg [OF assms(5)] by blast
  have "fle (Finite 0) (fmul (float64_of_int inTok) (InputPer1K mp))"
    using a assms(2) by (rule fmul_nonneg)
  moreover have "fle (Finite 0) (fmul (float64_of_int outTok) (OutputPer1K mp))"
    using b assms(3) by (rule fmul_nonneg)
  ultimately have "fle (Finite 0) (fdiv (fadd (fmul (float64_of_int inTok) (InputPer1K mp))
        (fmul (float64_of_int outTok) (OutputPer1K mp))) (Finite 1000))"
    by (intro fdiv_1000_nonneg fadd_nonneg)
  then show ?thesis using assms(1) by (simp add: ComputeCost_def)
qed

lemma Quote_nonempty: "Quote multi s \<noteq> []"
  by (simp add: Quote_def)

text \<open>
  The pricing stage keeps the invariant of a record whose token counts are not negative,
  when the rates of its model are finite and not negative: it either leaves the record, or
  stores a cost that is not negative, or clears \<open>CostKnown\<close> and stores a reason that is
  not empty.
\<close>

lemma OnEntry_price_keeps:
  assumes "finalized_ok e"
    and "0 \<le>s Entry.InputTokens e" and "0 \<le>s Entry.OutputTokens e"
    and "\<And>mp. map_index (Models prices) (Model e) = Some mp
            \<Longrightarrow> nonneg_rate (InputPer1K mp) \<and> nonneg_rate (OutputPer1K mp)"
  shows "finalized_ok (OnEntry_price multi prices e)"
proof (cases "CostKnown e \<and> Model e \<noteq> []")
  case False
  then have "OnEntry_price multi prices e = e"
    unfolding OnEntry_price_def by (rule if_not_P)
  then show ?thesis using assms(1) by simp
next
  case True
  show ?thesis
  proof (cases "map_index (Models prices) (Model e)")
    case None
    then have "\<not> Known (ComputeCost multi prices (Model e) (Entry.InputTokens e) (Entry.OutputTokens e))"
      and "CostResult.UnknownReason (ComputeCost multi prices (Model e) (Entry.InputTokens e) (Entry.OutputTokens e)) \<noteq> []"
      by (simp_all add: ComputeCost_def)
    then show ?thesis using True by (simp add: OnEntry_price_def finalized_ok_def Let_def)
  next
    case (Some mp)
    have k: "Known (ComputeCost multi prices (Model e) (Entry.InputTokens e) (Entry.OutputTokens e))"
      using Some by (simp add: ComputeCost_def)
    have "fle (Finite 0) (CostResult.CostUSD
            (ComputeCost multi prices (Model e) (Entry.InputTokens e) (Entry.OutputTokens e)))"
      using ComputeCost_nonneg [OF Some _ _ assms(2,3)] assms(4) [OF Some] by blast
    then show ?thesis
      using True k assms(1) by (simp add: OnEntry_price_def finalized_ok_def Let_def)
  qed
qed

text \<open>The record that leaves the pricing stage is the one added to the aggregator.\<close>

lemma runCmd_OnEntry_agg:
  "agg (runCmd_OnEntry multi prices now ok e st) = agg st @ [OnEntry_price multi prices e]"
  by (simp add: runCmd_OnEntry_def Let_def Add_def Write_def split: sum.splits)

lemma deliver_runCmd_OnEntry_agg:
  "agg (deliver (runCmd_OnEntry multi prices now ok) es st)
     = agg st @ map (OnEntry_price multi prices) es"
  by (induction es arbitrary: st) (simp_all add: runCmd_OnEntry_agg)

subsection \<open>The proxy: dispatch and response status\<close>

lemma SplitN2_nonempty: "SplitN2 s sep \<noteq> []"
  by (simp add: SplitN2_def)

text \<open>
  Claim C7: when the first segment of the path is not \<^verbatim>\<open>openai\<close>, \<^verbatim>\<open>anthropic\<close> or
  \<^verbatim>\<open>openrouter\<close>, \<open>ServeHTTP\<close> answers 400 with the message
  \<^verbatim>\<open>unknown provider: <segment>\<close>, sends nothing upstream and never calls \<^verbatim>\<open>OnEntry\<close>.
\<close>

theorem ServeHTTP_unknown_provider:
  assumes "SplitN2 (TrimPrefix (Path r) ''/'') (CHR ''/'') ! 0
             \<notin> {''openai'', ''anthropic'', ''openrouter''}"
  shows "ServeHTTP w cfg r =
           \<lparr>status = 400,
            relayed = ''unknown provider: '' @ SplitN2 (TrimPrefix (Path r) ''/'') (CHR ''/'') ! 0
                        @ [CHR 0x0A],
            upstream_request = None, entries = []\<rparr>"
proof -
  have "providerTargets (SplitN2 (TrimPrefix (Path r) ''/'') (CHR ''/'') ! 0) = None"
    using assms by (simp add: providerTargets_def)
  moreover have "\<not> length (SplitN2 (TrimPrefix (Path r) ''/'') (CHR ''/'')) < 1"
    using SplitN2_nonempty [of "TrimPrefix (Path r) ''/''" "CHR ''/''"] by (simp add: less_Suc_eq_0_disj)
  ultimately show ?thesis
    by (simp add: ServeHTTP_def Let_def http_Error_def)
qed

theorem ServeHTTP_unknown_provider_witness:
  "SplitN2 (TrimPrefix ''/mistral/v1/chat'' ''/'') (CHR ''/'') ! 0 = ''mistral''
   \<and> ServeHTTP fixture_world fixture_config
        \<lparr>Path = ''/mistral/v1/chat'', Body = None, ContentLength = 0\<rparr> =
      \<lparr>status = 400, relayed = ''unknown provider: mistral'' @ [CHR 0x0A],
       upstream_request = None, entries = []\<rparr>"
proof -
  have seg: "SplitN2 (TrimPrefix ''/mistral/v1/chat'' ''/'') (CHR ''/'') ! 0 = ''mistral''"
    by (simp add: SplitN2_def TrimPrefix_def)
  have "SplitN2 (TrimPrefix (Path \<lparr>Path = ''/mistral/v1/chat'', Body = None, ContentLength = 0\<rparr>) ''/'')
          (CHR ''/'') ! 0 \<notin> {''openai'', ''anthropic'', ''openrouter''}"
    using seg by simp
  from ServeHTTP_unknown_provider [OF this, of fixture_world fixture_config] seg
  show ?thesis by simp
qed

text \<open>
  Claim C9: for a response whose status is below 200 or at least 300, \<open>handleResponse\<close>
  returns the response with its body as it came, installs no interceptor and does not
  call \<^verbatim>\<open>OnEntry\<close>.
\<close>

theorem handleResponse_not_2xx:
  assumes "StatusCode resp < 200 \<or> 300 \<le> StatusCode resp"
  shows "handleResponse w cfg provider endpoint resp = (with_body resp (Passed (RespBody resp)), [])"
  using assms by (simp add: handleResponse_def)

theorem handleResponse_not_2xx_witness:
  "handleResponse fixture_world fixture_config ''openai'' ''/v1/chat/completions''
     \<lparr>StatusCode = 429, ContentType = ''application/json'',
      RespBody = Reader [''rate limit''] None, RespContentLength = 10\<rparr>
   = (\<lparr>StatusCode = 429, ContentType = ''application/json'',
       RespBody = Passed (Reader [''rate limit''] None), RespContentLength = 10\<rparr>, [])"
  using handleResponse_not_2xx [of "\<lparr>StatusCode = 429, ContentType = ''application/json'',
      RespBody = Reader [''rate limit''] None, RespContentLength = 10\<rparr>"
      fixture_world fixture_config "''openai''" "''/v1/chat/completions''"]
  by (simp add: with_body_def)

subsection \<open>One entry per response\<close>

lemma emits_once_finalize: "emits_once si (finalize si abort)"
  by (simp add: emits_once_def finalize_def)

lemma finalize_finalized: "si_finalized (fst (finalize si abort))"
  by (simp add: finalize_def)

lemma emits_once_observe: "emits_once si (observe w si payload)"
proof (cases "si_finalized si")
  case True
  then show ?thesis by (simp add: observe_def emits_once_def)
next
  case False
  show ?thesis
  proof (cases "payload = ''[DONE]''")
    case True
    with False show ?thesis by (simp add: observe_def emits_once_finalize)
  next
    case no: False
    obtain usage model where p: "ParseChunk w (si_provider si) payload = (usage, model)"
      by (cases "ParseChunk w (si_provider si) payload")
    from False no show ?thesis by (simp add: observe_def p emits_once_def)
  qed
qed

lemma emits_once_trans:
  assumes "emits_once si (si', es)" and "emits_once si' (si'', es')"
  shows "emits_once si (si'', es @ es')"
  using assms
  by (cases "si_finalized si"; cases "si_finalized si'"; cases "si_finalized si''")
    (simp_all add: emits_once_def)

lemma emits_once_observe_all: "emits_once si (observe_all w si ps)"
proof (induction ps arbitrary: si)
  case Nil
  show ?case by (simp add: emits_once_def)
next
  case (Cons p ps)
  obtain si' es where a: "observe w si p = (si', es)" by (cases "observe w si p")
  obtain si'' es' where b: "observe_all w si' ps = (si'', es')" by (cases "observe_all w si' ps")
  have "emits_once si (si', es)" using emits_once_observe [of si w p] a by simp
  moreover have "emits_once si' (si'', es')" using Cons.IH [of si'] b by simp
  ultimately have "emits_once si (si'', es @ es')" by (rule emits_once_trans)
  then show ?case by (simp add: a b)
qed

lemma emits_once_buffer: "emits_once (si\<lparr>si_buffer := b\<rparr>) res \<Longrightarrow> emits_once si res"
  by (simp add: emits_once_def)

lemma emits_once_Read: "emits_once si (interceptor_Read w si res)"
proof (cases res)
  case (Data chunk)
  obtain evs rest where s: "split_events [] (si_buffer si @ chunk) = (evs, rest)"
    by (cases "split_events [] (si_buffer si @ chunk)")
  show ?thesis
    using emits_once_observe_all [of "si\<lparr>si_buffer := rest\<rparr>" w "concat (map event_payloads evs)"]
    by (simp add: interceptor_Read_def Data s emits_once_buffer)
next
  case EOF
  then show ?thesis by (simp add: interceptor_Read_def emits_once_finalize)
next
  case (ReadError err)
  then show ?thesis by (simp add: interceptor_Read_def emits_once_finalize)
qed

lemma emits_once_Reads: "emits_once si (interceptor_Reads w si rs)"
proof (induction rs arbitrary: si)
  case Nil
  show ?case by (simp add: emits_once_def)
next
  case (Cons r rs)
  obtain si' es where a: "interceptor_Read w si r = (si', es)" by (cases "interceptor_Read w si r")
  obtain si'' es' where b: "interceptor_Reads w si' rs = (si'', es')"
    by (cases "interceptor_Reads w si' rs")
  have "emits_once si (si', es)" using emits_once_Read [of si w r] a by simp
  moreover have "emits_once si' (si'', es')" using Cons.IH [of si'] b by simp
  ultimately have "emits_once si (si'', es @ es')" by (rule emits_once_trans)
  then show ?case by (simp add: a b)
qed

lemma stream_body_one:
  assumes "\<not> si_finalized si"
  shows "length (stream_body w si reads) = 1"
proof -
  obtain si' es where a: "interceptor_Reads w si reads = (si', es)"
    by (cases "interceptor_Reads w si reads")
  obtain si'' es' where b: "interceptor_Close si' = (si'', es')"
    by (cases "interceptor_Close si'")
  have "emits_once si (si', es)" using emits_once_Reads [of si w reads] a by simp
  with assms have r: "length es = (if si_finalized si' then 1 else 0)"
    by (simp add: emits_once_def)
  have "emits_once si' (si'', es')"
    using emits_once_finalize [of si' "''client disconnected''"] b
    by (simp add: interceptor_Close_def)
  moreover have "si_finalized si''"
    using finalize_finalized [of si' "''client disconnected''"] b
    by (simp add: interceptor_Close_def)
  ultimately have c: "length es' = (if si_finalized si' then 0 else 1)"
    by (simp add: emits_once_def)
  show ?thesis
    by (simp add: stream_body_def a b r c)
qed

lemma newStreamInterceptor_open: "\<not> si_finalized (newStreamInterceptor provider endpoint)"
  by (simp add: newStreamInterceptor_def)

text \<open>
  Claim C1, as stated, fails for a JSON response whose body cannot be read to the end:
  \<open>handleResponse\<close> returns without calling \<^verbatim>\<open>OnEntry\<close>, so a 200 response with
  content type \<^verbatim>\<open>application/json\<close> whose body breaks off leaves no entry.
\<close>

theorem handleResponse_read_error_counterexample:
  "OnEntry fixture_config
   \<and> StatusCode broken_response = 200
   \<and> ContentType broken_response = ''application/json''
   \<and> snd (handleResponse fixture_world fixture_config ''openai'' ''/v1/chat/completions''
             broken_response) = []"
  by (simp add: handleResponse_def broken_response_def fixture_config_def Contains_def ReadAll_def)

text \<open>
  Claim C1, amended: for a response with a 2xx status, when \<^verbatim>\<open>OnEntry\<close> is set: a JSON
  response (not an event stream) whose body is read to the end passes exactly one entry to
  \<^verbatim>\<open>OnEntry\<close>, the one \<open>parseUsage\<close> builds, and one whose body fails to read passes
  none; for an event-stream response
  \<open>handleResponse\<close> installs the interceptor and passes no entry itself, and the
  interceptor passes exactly one entry over the life of the body, whatever the reads
  return (any number of chunks, with or without usage, ending normally, with an error or by
  the client going away).
\<close>

theorem one_entry_per_response:
  assumes "200 \<le> StatusCode resp" and "StatusCode resp < 300" and "OnEntry cfg"
  shows "(\<not> Contains (ContentType resp) ''text/event-stream''
          \<and> Contains (ContentType resp) ''application/json''
          \<and> ReadAll (RespBody resp) = Inr body
          \<longrightarrow> snd (handleResponse w cfg provider endpoint resp) = [parseUsage w provider endpoint body])
       \<and> (\<not> Contains (ContentType resp) ''text/event-stream''
          \<and> Contains (ContentType resp) ''application/json''
          \<and> ReadAll (RespBody resp) = Inl err
          \<longrightarrow> snd (handleResponse w cfg provider endpoint resp) = [])
       \<and> (Contains (ContentType resp) ''text/event-stream''
          \<longrightarrow> handleResponse w cfg provider endpoint resp =
                (with_body resp (Intercepted (newStreamInterceptor provider endpoint) (RespBody resp)), [])
              \<and> length (stream_body w (newStreamInterceptor provider endpoint) reads) = 1)"
  using assms stream_body_one [OF newStreamInterceptor_open]
  by (simp add: handleResponse_def)

theorem one_entry_per_response_witness:
  "snd (handleResponse fixture_world fixture_config ''openai'' ''/v1/chat/completions'' fixture_response)
     = [parseUsage fixture_world ''openai'' ''/v1/chat/completions'' ''{}'']
   \<and> snd (handleResponse fixture_world fixture_config ''anthropic'' ''/v1/messages'' broken_response)
     = []
   \<and> length (stream_body stream_world (newStreamInterceptor ''openai'' ''/v1/chat/completions'')
        (body_reads (RespBody stream_response) None)) = 1
   \<and> length (stream_body stream_world (newStreamInterceptor ''openai'' ''/v1/chat/completions'')
        (body_reads (RespBody stream_response) (Some 0))) = 1"
proof -
  have st: "200 \<le> StatusCode fixture_response" "StatusCode fixture_response < 300"
    "200 \<le> StatusCode stream_response" "StatusCode stream_response < 300"
    "200 \<le> StatusCode broken_response" "StatusCode broken_response < 300"
    by (simp_all add: fixture_response_def stream_response_def broken_response_def)
  have on: "OnEntry fixture_config"
    by (simp add: fixture_config_def)
  have broken: "\<not> Contains (ContentType broken_response) ''text/event-stream''"
    "Contains (ContentType broken_response) ''application/json''"
    "ReadAll (RespBody broken_response) = Inl ''unexpected EOF''"
    by code_simp+
  from one_entry_per_response [OF st(5,6) on, where err = "''unexpected EOF''" and w = fixture_world
      and provider = "''anthropic''" and endpoint = "''/v1/messages''"] broken
  have d: "snd (handleResponse fixture_world fixture_config ''anthropic'' ''/v1/messages'' broken_response)
     = []"
    by blast
  have json: "\<not> Contains (ContentType fixture_response) ''text/event-stream''"
    "Contains (ContentType fixture_response) ''application/json''"
    "ReadAll (RespBody fixture_response) = Inr ''{}''"
    by code_simp+
  have sse: "Contains (ContentType stream_response) ''text/event-stream''"
    by code_simp
  from one_entry_per_response [OF st(1,2) on, where body = "''{}''" and w = fixture_world
      and provider = "''openai''" and endpoint = "''/v1/chat/completions''"] json
  have a: "snd (handleResponse fixture_world fixture_config ''openai'' ''/v1/chat/completions'' fixture_response)
     = [parseUsage fixture_world ''openai'' ''/v1/chat/completions'' ''{}'']"
    by blast
  from one_entry_per_response [OF st(3,4) on, where w = stream_world
      and provider = "''openai''" and endpoint = "''/v1/chat/completions''"
      and reads = "body_reads (RespBody stream_response) None"] sse
  have b: "length (stream_body stream_world (newStreamInterceptor ''openai'' ''/v1/chat/completions'')
        (body_reads (RespBody stream_response) None)) = 1"
    by blast
  from one_entry_per_response [OF st(3,4) on, where w = stream_world
      and provider = "''openai''" and endpoint = "''/v1/chat/completions''"
      and reads = "body_reads (RespBody stream_response) (Some 0)"] sse
  have c: "length (stream_body stream_world (newStreamInterceptor ''openai'' ''/v1/chat/completions'')
        (body_reads (RespBody stream_response) (Some 0))) = 1"
    by blast
  from a b c d show ?thesis by blast
qed

text \<open>The same for the whole call, from the round trip to the close of the body.\<close>

lemma proxy_ServeHTTP_one_entry:
  assumes "RoundTrip w \<lparr>out_url = u, out_path = path, out_req = r\<rparr> = Inr resp"
    and "200 \<le> StatusCode resp" and "StatusCode resp < 300" and "OnEntry cfg"
    and "Contains (ContentType resp) ''text/event-stream''
         \<or> Contains (ContentType resp) ''application/json'' \<and> ReadAll (RespBody resp) = Inr body"
  shows "length (entries (proxy_ServeHTTP w cfg provider u path r)) = 1"
  using assms stream_body_one [OF newStreamInterceptor_open]
  by (auto simp: proxy_ServeHTTP_def handleResponse_def with_body_def)

subsection \<open>The record that is finalized\<close>

text \<open>
  The records that the proxy hands to the callback: the one \<open>parseUsage\<close> builds from a
  buffered response, and the one the interceptor emits for a stream. Each satisfies the
  invariant before the pricing stage, with a cost of zero, and its token counts are those
  that the recognition of the provider reports.
\<close>

lemma zero_sle: "(0::64 word) \<le>s 0"
  by (simp add: word_sle_eq)

lemma ParseResponse_spec_priceable:
  assumes "nonneg_usage (fst (ParseChunk w p body))"
    and "Entry.UnknownReason entry = []" and "Entry.CostUSD entry = Finite 0"
    and "0 \<le>s Entry.InputTokens entry" and "0 \<le>s Entry.OutputTokens entry"
  shows "priceable (ParseResponse_spec w p body entry)"
proof (cases "ParseChunk w p body")
  case (Pair u model)
  show ?thesis
  proof (cases u)
    case None
    with Pair assms(4,5) show ?thesis
      by (simp add: ParseResponse_spec_def priceable_def finalized_ok_def)
  next
    case (Some t)
    obtain i out raw where t: "t = (i, out, raw)" by (cases t)
    from assms(1) Pair Some t have "0 \<le>s i" "0 \<le>s out" by (simp_all add: nonneg_usage_def)
    with Pair Some t assms(2,3) show ?thesis
      by (simp add: ParseResponse_spec_def priceable_def finalized_ok_def)
  qed
qed

lemma parseUsage_spec_priceable:
  assumes "\<And>provider payload. nonneg_usage (fst (ParseChunk w provider payload))"
  shows "priceable (parseUsage (spec_parsers w) provider endpoint body)"
proof -
  have "priceable (ParseResponse_spec w p body
          \<lparr>Timestamp = [], Provider = q, Endpoint = endpoint, Model = [],
           InputTokens = 0, OutputTokens = 0, RawUsage = None, CostUSD = Finite 0,
           CostKnown = False, UnknownReason = [], RequestID = [], Streaming = False\<rparr>)" for p q
    by (rule ParseResponse_spec_priceable [OF assms]) (simp_all add: zero_sle)
  moreover have "priceable
          (\<lparr>Timestamp = [], Provider = provider, Endpoint = endpoint, Model = [],
           InputTokens = 0, OutputTokens = 0, RawUsage = None, CostUSD = Finite 0,
           CostKnown = False, UnknownReason = [], RequestID = [], Streaming = False\<rparr>
           \<lparr>CostKnown := False, UnknownReason := ''unsupported provider''\<rparr>)"
    by (simp add: priceable_def finalized_ok_def zero_sle)
  ultimately show ?thesis
    by (simp add: parseUsage_def spec_parsers_def Let_def)
qed

text \<open>
  The interceptor: the usage it holds comes from the recognition, so the record it emits
  when the stream is finalized has token counts that are not negative; it has a reason
  exactly when it is not cost-known.
\<close>

lemma stream_entry_priceable:
  assumes "nonneg_usage (si_usage si)"
  shows "priceable (stream_entry si abort)"
proof (cases "si_usage si")
  case None
  then show ?thesis
    by (simp add: stream_entry_def priceable_def finalized_ok_def zero_sle)
next
  case (Some t)
  obtain i out raw where t: "t = (i, out, raw)" by (cases t)
  from assms Some t have "0 \<le>s i" "0 \<le>s out" by (simp_all add: nonneg_usage_def)
  with Some t show ?thesis
    by (simp add: stream_entry_def priceable_def finalized_ok_def)
qed

lemma step_ok_finalize: "nonneg_usage (si_usage si) \<Longrightarrow> step_ok (finalize si abort)"
  by (simp add: finalize_def step_ok_def stream_entry_priceable)

lemma step_ok_observe:
  assumes "\<And>provider payload. nonneg_usage (fst (ParseChunk w provider payload))"
    and "nonneg_usage (si_usage si)"
  shows "step_ok (observe w si payload)"
proof -
  obtain u m where p: "ParseChunk w (si_provider si) payload = (u, m)"
    by (cases "ParseChunk w (si_provider si) payload")
  with assms(1) [of "si_provider si" payload] have "nonneg_usage u" by simp
  with assms(2) p show ?thesis
    using step_ok_finalize [OF assms(2), of "[]"]
    by (cases "si_usage si") (simp_all add: observe_def step_ok_def)
qed

lemma step_ok_observe_all:
  assumes "\<And>provider payload. nonneg_usage (fst (ParseChunk w provider payload))"
  shows "nonneg_usage (si_usage si) \<Longrightarrow> step_ok (observe_all w si ps)"
proof (induction ps arbitrary: si)
  case Nil
  then show ?case by (simp add: step_ok_def)
next
  case (Cons p ps)
  obtain si' es where a: "observe w si p = (si', es)" by (cases "observe w si p")
  obtain si'' es' where b: "observe_all w si' ps = (si'', es')" by (cases "observe_all w si' ps")
  from step_ok_observe [OF assms Cons.prems, of p] a
  have 1: "nonneg_usage (si_usage si')" "list_all priceable es" by (simp_all add: step_ok_def)
  from Cons.IH [OF 1(1)] b have "nonneg_usage (si_usage si'')" "list_all priceable es'"
    by (simp_all add: step_ok_def)
  with 1 show ?case by (simp add: a b step_ok_def)
qed

lemma step_ok_Read:
  assumes "\<And>provider payload. nonneg_usage (fst (ParseChunk w provider payload))"
    and "nonneg_usage (si_usage si)"
  shows "step_ok (interceptor_Read w si res)"
proof (cases res)
  case (Data chunk)
  obtain evs rest where s: "split_events [] (si_buffer si @ chunk) = (evs, rest)"
    by (cases "split_events [] (si_buffer si @ chunk)")
  have "nonneg_usage (si_usage (si\<lparr>si_buffer := rest\<rparr>))" using assms(2) by simp
  from step_ok_observe_all [OF assms(1) this] show ?thesis
    by (simp add: interceptor_Read_def Data s)
next
  case EOF
  then show ?thesis using step_ok_finalize [OF assms(2)] by (simp add: interceptor_Read_def)
next
  case (ReadError err)
  then show ?thesis using step_ok_finalize [OF assms(2)] by (simp add: interceptor_Read_def)
qed

lemma step_ok_Reads:
  assumes "\<And>provider payload. nonneg_usage (fst (ParseChunk w provider payload))"
  shows "nonneg_usage (si_usage si) \<Longrightarrow> step_ok (interceptor_Reads w si rs)"
proof (induction rs arbitrary: si)
  case Nil
  then show ?case by (simp add: step_ok_def)
next
  case (Cons r rs)
  obtain si' es where a: "interceptor_Read w si r = (si', es)" by (cases "interceptor_Read w si r")
  obtain si'' es' where b: "interceptor_Reads w si' rs = (si'', es')"
    by (cases "interceptor_Reads w si' rs")
  from step_ok_Read [OF assms Cons.prems, of r] a
  have 1: "nonneg_usage (si_usage si')" "list_all priceable es" by (simp_all add: step_ok_def)
  from Cons.IH [OF 1(1)] b have "nonneg_usage (si_usage si'')" "list_all priceable es'"
    by (simp_all add: step_ok_def)
  with 1 show ?case by (simp add: a b step_ok_def)
qed

lemma stream_body_priceable:
  assumes "\<And>provider payload. nonneg_usage (fst (ParseChunk w provider payload))"
  shows "list_all priceable (stream_body w (newStreamInterceptor provider endpoint) reads)"
proof -
  let ?si = "newStreamInterceptor provider endpoint"
  have 0: "nonneg_usage (si_usage ?si)" by (simp add: newStreamInterceptor_def nonneg_usage_def)
  obtain si' es where a: "interceptor_Reads w ?si reads = (si', es)"
    by (cases "interceptor_Reads w ?si reads")
  from step_ok_Reads [OF assms 0, of reads] a
  have 1: "nonneg_usage (si_usage si')" "list_all priceable es" by (simp_all add: step_ok_def)
  from step_ok_finalize [OF 1(1), of "''client disconnected''"]
  have "list_all priceable (snd (interceptor_Close si'))"
    by (simp add: step_ok_def interceptor_Close_def)
  with 1 show ?thesis by (simp add: stream_body_def a)
qed

text \<open>
  A served request: \<open>handleResponse\<close> passes no entry or the one of \<open>parseUsage\<close>, and
  the interceptor it installs is a new one.
\<close>

lemma ParseChunk_spec_parsers: "ParseChunk (spec_parsers w) = ParseChunk w"
  by (simp add: spec_parsers_def)

lemma handleResponse_entries:
  "snd (handleResponse w cfg provider endpoint resp) = []
   \<or> (\<exists>body. snd (handleResponse w cfg provider endpoint resp) = [parseUsage w provider endpoint body])"
  by (auto simp: handleResponse_def split: sum.splits)

lemma handleResponse_body:
  "RespBody (fst (handleResponse w cfg provider endpoint resp)) = Intercepted si rd
   \<Longrightarrow> si = newStreamInterceptor provider endpoint"
  by (simp add: handleResponse_def with_body_def split: if_splits sum.splits)

lemma proxy_ServeHTTP_priceable:
  assumes "\<And>provider payload. nonneg_usage (fst (ParseChunk w provider payload))"
  shows "list_all priceable (entries (proxy_ServeHTTP (spec_parsers w) cfg provider u path r))"
proof (cases "RoundTrip (spec_parsers w) \<lparr>out_url = u, out_path = path, out_req = r\<rparr>")
  case (Inl err)
  then show ?thesis by (simp add: proxy_ServeHTTP_def)
next
  case (Inr resp)
  obtain resp' es where h: "handleResponse (spec_parsers w) cfg provider path resp = (resp', es)"
    by (cases "handleResponse (spec_parsers w) cfg provider path resp")
  have es: "list_all priceable es"
    using handleResponse_entries [of "spec_parsers w" cfg provider path resp] h
      parseUsage_spec_priceable [OF assms, where provider = provider and endpoint = path]
    by auto
  have c: "\<And>provider payload. nonneg_usage (fst (ParseChunk (spec_parsers w) provider payload))"
    using assms by (simp add: ParseChunk_spec_parsers)
  show ?thesis
  proof (cases "RespBody resp'")
    case (Passed rd)
    with Inr h es show ?thesis by (simp add: proxy_ServeHTTP_def)
  next
    case (Intercepted si rd)
    with handleResponse_body [of "spec_parsers w" cfg provider path resp si rd] h
    have "si = newStreamInterceptor provider path" by simp
    with Inr h es Intercepted stream_body_priceable [OF c, of provider path] show ?thesis
      by (simp add: proxy_ServeHTTP_def)
  qed
qed

lemma ServeHTTP_priceable:
  assumes "\<And>provider payload. nonneg_usage (fst (ParseChunk w provider payload))"
  shows "list_all priceable (entries (ServeHTTP (spec_parsers w) cfg r))"
  using proxy_ServeHTTP_priceable [OF assms]
  by (simp add: ServeHTTP_def Let_def http_Error_def split: option.splits)

text \<open>
  Claim C3, as stated, fails in two ways, both for a buffered response whose usage names
  \<^verbatim>\<open>gpt-4o\<close>. With 1000 input and 500 output tokens and a pricing table whose input rate
  is negative, the record is finalized with a known cost below zero. With the pricing
  table of the tests and a usage that reports an input-token count below zero, the record
  is finalized with a known cost below zero as well. Neither \<^verbatim>\<open>Load\<close> nor
  \<^verbatim>\<open>ComputeCost\<close> nor the callback checks the sign of a rate, of a count or of the cost.
\<close>

theorem finalized_record_negative_cost_counterexample:
  "CostKnown (OnEntry_price copy_rune negative_prices
      (parseUsage (spec_parsers buffered_world) ''openai'' ''/v1/chat/completions'' ''usage''))
   \<and> \<not> fle (Finite 0) (Entry.CostUSD (OnEntry_price copy_rune negative_prices
      (parseUsage (spec_parsers buffered_world) ''openai'' ''/v1/chat/completions'' ''usage'')))
   \<and> CostKnown (OnEntry_price copy_rune test_prices
      (parseUsage (spec_parsers negative_usage_world) ''openai'' ''/v1/chat/completions'' ''usage''))
   \<and> \<not> fle (Finite 0) (Entry.CostUSD (OnEntry_price copy_rune test_prices
      (parseUsage (spec_parsers negative_usage_world) ''openai'' ''/v1/chat/completions'' ''usage'')))"
  by code_simp

text \<open>
  Claim C3, amended: when every rate in the pricing table is finite and not negative, and
  the token counts that the recognition of the providers reports are not negative, every
  record that the proxy hands to the callback satisfies the invariant after the pricing
  stage: if \<open>CostKnown\<close> is true then \<open>UnknownReason\<close> is empty and \<open>CostUSD\<close> is not
  negative, and if \<open>CostKnown\<close> is false then \<open>UnknownReason\<close> is not empty. This holds
  for the record that \<open>parseUsage\<close> builds from any buffered body, for every record that
  the interceptor emits over any sequence of reads, and so for every record of a request
  that \<open>ServeHTTP\<close> serves.
\<close>

theorem finalized_record_invariant:
  assumes "\<And>model mp. map_index (Models prices) model = Some mp
             \<Longrightarrow> nonneg_rate (InputPer1K mp) \<and> nonneg_rate (OutputPer1K mp)"
    and "\<And>provider payload. nonneg_usage (fst (ParseChunk w provider payload))"
  shows "finalized_ok (OnEntry_price multi prices (parseUsage (spec_parsers w) provider endpoint body))
       \<and> (\<forall>e \<in> set (stream_body w (newStreamInterceptor provider endpoint) reads).
             finalized_ok (OnEntry_price multi prices e))
       \<and> (\<forall>e \<in> set (entries (ServeHTTP (spec_parsers w) cfg r)).
             finalized_ok (OnEntry_price multi prices e))"
proof -
  have keep: "finalized_ok (OnEntry_price multi prices e)" if "priceable e" for e
    using that assms(1) by (simp add: priceable_def OnEntry_price_keeps)
  have "priceable (parseUsage (spec_parsers w) provider endpoint body)"
    by (rule parseUsage_spec_priceable [OF assms(2)])
  moreover have "list_all priceable (stream_body w (newStreamInterceptor provider endpoint) reads)"
    by (rule stream_body_priceable [OF assms(2)])
  moreover have "list_all priceable (entries (ServeHTTP (spec_parsers w) cfg r))"
    by (rule ServeHTTP_priceable [OF assms(2)])
  ultimately show ?thesis
    using keep by (simp add: list_all_iff)
qed

theorem finalized_record_invariant_witness:
  "Entry.CostUSD (OnEntry_price copy_rune test_prices
      (parseUsage (spec_parsers buffered_world) ''openai'' ''/v1/chat/completions'' ''usage''))
     = float64_lit (75 / 10000)
   \<and> CostKnown (OnEntry_price copy_rune test_prices
      (parseUsage (spec_parsers buffered_world) ''openai'' ''/v1/chat/completions'' ''usage''))
   \<and> finalized_ok (OnEntry_price copy_rune test_prices
      (parseUsage (spec_parsers buffered_world) ''openai'' ''/v1/chat/completions'' ''usage''))
   \<and> length (stream_body buffered_world (newStreamInterceptor ''openai'' ''/v1/chat/completions'')
        (body_reads (RespBody stream_response) None)) = 1
   \<and> finalized_ok (OnEntry_price copy_rune test_prices
        (hd (stream_body buffered_world (newStreamInterceptor ''openai'' ''/v1/chat/completions'')
           (body_reads (RespBody stream_response) None))))
   \<and> length (entries (ServeHTTP (spec_parsers buffered_world) fixture_config text_request)) = 1
   \<and> finalized_ok (OnEntry_price copy_rune test_prices
        (hd (entries (ServeHTTP (spec_parsers buffered_world) fixture_config text_request))))"
proof -
  have r1: "nonneg_rate (float64_lit (25 / 10000))" "nonneg_rate (float64_lit (1 / 100))"
    by code_simp+
  have rates: "nonneg_rate (InputPer1K mp) \<and> nonneg_rate (OutputPer1K mp)"
    if "map_index (Models test_prices) model = Some mp" for model mp
    using that r1 by (auto simp: test_prices_def map_index_def split: if_splits)
  have usage: "nonneg_usage (fst (ParseChunk buffered_world provider payload))" for provider payload
    by (simp add: buffered_world_def stream_world_def fixture_ParseChunk_def nonneg_usage_def
        word_sle_eq)
  have cost: "Entry.CostUSD (OnEntry_price copy_rune test_prices
      (parseUsage (spec_parsers buffered_world) ''openai'' ''/v1/chat/completions'' ''usage''))
     = float64_lit (75 / 10000)"
    by code_simp
  have known: "CostKnown (OnEntry_price copy_rune test_prices
      (parseUsage (spec_parsers buffered_world) ''openai'' ''/v1/chat/completions'' ''usage''))"
    by code_simp
  have one: "length (stream_body buffered_world (newStreamInterceptor ''openai'' ''/v1/chat/completions'')
        (body_reads (RespBody stream_response) None)) = 1"
    by (rule stream_body_one [OF newStreamInterceptor_open])
  have served: "length (entries (ServeHTTP (spec_parsers buffered_world) fixture_config text_request)) = 1"
    by code_simp
  have mem: "hd xs \<in> set xs" if "length xs = 1" for xs :: "Entry list"
    using that by (cases xs) simp_all
  have "finalized_ok (OnEntry_price copy_rune test_prices
      (parseUsage (spec_parsers buffered_world) ''openai'' ''/v1/chat/completions'' ''usage''))
    \<and> (\<forall>e \<in> set (stream_body buffered_world (newStreamInterceptor ''openai'' ''/v1/chat/completions'')
           (body_reads (RespBody stream_response) None)).
          finalized_ok (OnEntry_price copy_rune test_prices e))
    \<and> (\<forall>e \<in> set (entries (ServeHTTP (spec_parsers buffered_world) fixture_config text_request)).
          finalized_ok (OnEntry_price copy_rune test_prices e))"
    by (rule finalized_record_invariant) (rule rates, assumption, rule usage)
  with cost known one served mem [OF one] mem [OF served]
  show ?thesis by blast
qed

subsection \<open>The request mutator\<close>

text \<open>
  Claim C8: for a request whose body is read to the end (and is empty if the declared
  length is 0, as \<^verbatim>\<open>net/http\<close> guarantees): when the body does not decode as a JSON
  object, or the payload fails to re-marshal, the forwarded bytes are the original ones
  and \<open>ContentLength\<close> is their length; after a successful re-marshal the forwarded
  bytes are the marshalled ones and \<open>ContentLength\<close> is their length; the payload is
  changed only when \<^verbatim>\<open>"stream"\<close> is \<^verbatim>\<open>true\<close> and there is no \<^verbatim>\<open>"stream_options"\<close>
  member, and the change adds that member, \<^verbatim>\<open>{"include_usage": true}\<close>, and nothing else.
\<close>

theorem injectStreamOptions_body:
  assumes "Body r = Some rd" and "ReadAll rd = Inr body"
    and "ContentLength r = 0 \<longrightarrow> body = []"
  shows "(json_Unmarshal w body = Inl err
            \<longrightarrow> forwarded_body (injectStreamOptions w r) = Inr body
              \<and> ContentLength (injectStreamOptions w r) = int (length body))
       \<and> (json_Unmarshal w body = Inr payload \<and> json_Marshal w (add_stream_options payload) = Inl err
            \<longrightarrow> forwarded_body (injectStreamOptions w r) = Inr body
              \<and> ContentLength (injectStreamOptions w r) = int (length body))
       \<and> (ContentLength r \<noteq> 0 \<and> json_Unmarshal w body = Inr payload
            \<and> json_Marshal w (add_stream_options payload) = Inr modified
            \<longrightarrow> forwarded_body (injectStreamOptions w r) = Inr modified
              \<and> ContentLength (injectStreamOptions w r) = int (length modified))
       \<and> (add_stream_options payload \<noteq> payload
            \<longrightarrow> map_index payload ''stream'' = Some (JBool True)
              \<and> map_index payload ''stream_options'' = None)
       \<and> (map_index payload ''stream'' = Some (JBool True) \<and> map_index payload ''stream_options'' = None
            \<longrightarrow> map_index (add_stream_options payload) ''stream_options''
                  = Some (JObject [(''include_usage'', JBool True)])
              \<and> (\<forall>k. k \<noteq> ''stream_options''
                     \<longrightarrow> map_index (add_stream_options payload) k = map_index payload k))"
proof -
  have early: "ContentLength r = 0 \<Longrightarrow> injectStreamOptions w r = r"
    using assms(1) by (simp add: injectStreamOptions_def)
  have same: "ContentLength r = 0 \<Longrightarrow> forwarded_body r = Inr body \<and> ContentLength r = int (length body)"
    using assms by (simp add: forwarded_body_def)
  have fw: "\<And>b. forwarded_body (r\<lparr>Body := Some (NopCloser b), ContentLength := int (length b)\<rparr>) = Inr b"
    by (simp add: forwarded_body_def NopCloser_def ReadAll_def)
  have a: "json_Unmarshal w body = Inl err
            \<longrightarrow> forwarded_body (injectStreamOptions w r) = Inr body
              \<and> ContentLength (injectStreamOptions w r) = int (length body)"
  proof (cases "ContentLength r = 0")
    case True
    then show ?thesis using early same by simp
  next
    case False
    then show ?thesis using assms(1,2) fw by (simp add: injectStreamOptions_def)
  qed
  have b: "json_Unmarshal w body = Inr payload \<and> json_Marshal w (add_stream_options payload) = Inl err
            \<longrightarrow> forwarded_body (injectStreamOptions w r) = Inr body
              \<and> ContentLength (injectStreamOptions w r) = int (length body)"
  proof (cases "ContentLength r = 0")
    case True
    then show ?thesis using early same by simp
  next
    case False
    then show ?thesis using assms(1,2) fw by (simp add: injectStreamOptions_def)
  qed
  have c: "ContentLength r \<noteq> 0 \<and> json_Unmarshal w body = Inr payload
            \<and> json_Marshal w (add_stream_options payload) = Inr modified
            \<longrightarrow> forwarded_body (injectStreamOptions w r) = Inr modified
              \<and> ContentLength (injectStreamOptions w r) = int (length modified)"
    using assms(1,2) fw by (simp add: injectStreamOptions_def)
  have d: "add_stream_options payload \<noteq> payload
            \<longrightarrow> map_index payload ''stream'' = Some (JBool True)
              \<and> map_index payload ''stream_options'' = None"
    by (cases payload) (simp_all add: add_stream_options_def map_index_def)
  have e: "map_index payload ''stream'' = Some (JBool True) \<and> map_index payload ''stream_options'' = None
            \<longrightarrow> map_index (add_stream_options payload) ''stream_options''
                  = Some (JObject [(''include_usage'', JBool True)])
              \<and> (\<forall>k. k \<noteq> ''stream_options''
                     \<longrightarrow> map_index (add_stream_options payload) k = map_index payload k)"
    by (cases payload) (simp_all add: add_stream_options_def map_index_def)
  from a b c d e show ?thesis by blast
qed

theorem injectStreamOptions_body_witness:
  "forwarded_body (injectStreamOptions fixture_world text_request) = Inr ''not json''
   \<and> ContentLength (injectStreamOptions fixture_world text_request) = 8
   \<and> forwarded_body (injectStreamOptions (fixture_world\<lparr>json_Marshal := failing_Marshal\<rparr>)
        streaming_request) = Inr stream_request
   \<and> ContentLength (injectStreamOptions (fixture_world\<lparr>json_Marshal := failing_Marshal\<rparr>)
        streaming_request) = 15
   \<and> forwarded_body (injectStreamOptions fixture_world streaming_request)
        = Inr stream_request_with_options
   \<and> ContentLength (injectStreamOptions fixture_world streaming_request) = 55
   \<and> add_stream_options (Some [''stream'' \<mapsto> JBool True]) \<noteq> Some [''stream'' \<mapsto> JBool True]
   \<and> map_index (add_stream_options (Some [''stream'' \<mapsto> JBool True])) ''stream_options''
        = Some (JObject [(''include_usage'', JBool True)])
   \<and> map_index (add_stream_options (Some [''stream'' \<mapsto> JBool True])) ''stream''
        = Some (JBool True)"
proof -
  let ?p = "Some [''stream'' \<mapsto> JBool True]"
  let ?w = "fixture_world\<lparr>json_Marshal := failing_Marshal\<rparr>"
  have len: "length stream_request = 15" "length stream_request_with_options = 55"
    by (simp_all add: stream_request_def stream_request_with_options_def quoted_def)
  have t: "Body text_request = Some (Reader [''not json''] None)"
    "ReadAll (Reader [''not json''] None) = Inr ''not json''"
    "ContentLength text_request = 0 \<longrightarrow> ''not json'' = []"
    "json_Unmarshal fixture_world ''not json'' = Inl ''invalid character''"
    by (simp_all add: text_request_def ReadAll_def fixture_world_def fixture_decode_def
        stream_request_def)
  have s: "Body streaming_request = Some (Reader [stream_request] None)"
    "ReadAll (Reader [stream_request] None) = Inr stream_request"
    "ContentLength streaming_request = 0 \<longrightarrow> stream_request = []"
    "ContentLength streaming_request \<noteq> 0"
    "json_Unmarshal fixture_world stream_request = Inr ?p"
    "json_Unmarshal ?w stream_request = Inr ?p"
    by (simp_all add: streaming_request_def ReadAll_def fixture_world_def fixture_decode_def)
  have changed: "add_stream_options ?p \<noteq> ?p"
  proof
    assume "add_stream_options ?p = ?p"
    then have "map_index (add_stream_options ?p) ''stream_options'' = map_index ?p ''stream_options''"
      by simp
    then show False by (simp add: add_stream_options_def map_index_def)
  qed
  have m: "json_Marshal fixture_world (add_stream_options ?p) = Inr stream_request_with_options"
    "json_Marshal ?w (add_stream_options ?p) = Inl ''unsupported value''"
    by (simp_all add: fixture_world_def fixture_encode_def failing_Marshal_def add_stream_options_def)
  note a = injectStreamOptions_body [OF t(1,2,3), where w = fixture_world
      and err = "''invalid character''"]
  note b = injectStreamOptions_body [OF s(1,2,3), where w = ?w and payload = ?p
      and err = "''unsupported value''"]
  note c = injectStreamOptions_body [OF s(1,2,3), where w = fixture_world and payload = ?p
      and modified = stream_request_with_options]
  have sel: "map_index ?p ''stream'' = Some (JBool True)" "map_index ?p ''stream_options'' = None"
    by (simp_all add: map_index_def)
  from a t(4) have r1: "forwarded_body (injectStreamOptions fixture_world text_request) = Inr ''not json''"
    "ContentLength (injectStreamOptions fixture_world text_request) = 8"
    by simp_all
  from b s(6) m(2) have r2: "forwarded_body (injectStreamOptions ?w streaming_request) = Inr stream_request"
    "ContentLength (injectStreamOptions ?w streaming_request) = 15"
    by (simp_all add: len)
  from c s(4,5) m(1) have r3: "forwarded_body (injectStreamOptions fixture_world streaming_request)
        = Inr stream_request_with_options"
    "ContentLength (injectStreamOptions fixture_world streaming_request) = 55"
    by (simp_all add: len)
  from c sel have r4: "map_index (add_stream_options ?p) ''stream_options''
        = Some (JObject [(''include_usage'', JBool True)])"
    "map_index (add_stream_options ?p) ''stream'' = Some (JBool True)"
    by simp_all
  from r1 r2 r3 r4 changed show ?thesis by blast
qed

end
